theory Spec2Isabelle
  imports Main "HOL-Library.Word" "HOL-Library.Sublist"
begin

section \<open>The cosipbft ordering service (core/ordering/cosipbft/mod.go)\<close>

text \<open>
  The service orchestrates calls to collaborators (roster reader, PBFT state machine,
  synchronizer, pool, validation, collective signing, RPC). Each function of the source
  is embedded as a function that returns the sequence of collaborator calls and log
  lines it performs (its trace) together with its Go result. What a collaborator
  answers is read from an environment record with one field per call site.
\<close>

subsection \<open>Data\<close>

type_synonym address = nat
type_synonym roster = "address list"
type_synonym txn = nat
type_synonym digest = nat
type_synonym signature = nat
type_synonym genesis = nat
type_synonym duration = int

text \<open>xerrors.New and xerrors.Errorf with its format string and the wrapped error.\<close>

datatype err = New string | Errorf string err

datatype pbft_state = InitialState | PrepareState | CommitState | ViewChangeState

record view =
  view_id :: digest
  view_leader :: nat

text \<open>types.NewBlock(data, WithTreeRoot(root), WithIndex(index), ...).\<close>

record block =
  block_data :: "txn list"
  block_root :: digest
  block_index :: "64 word"

datatype message =
    ViewMessage digest nat
  | BlockMessage block
  | Commit digest signature
  | Done digest signature
  | GenesisMessage genesis

text \<open>One element of the channel returned by rpc.Call: resp.GetMessageOrError().\<close>

type_synonym response = "err + message"

datatype level = Debug | Warn | Error

datatype field = NoField | ErrField err | IndexField "64 word" | SigField signature

datatype action =
    Log level field string
  | GetCurrentRoster
  | GetLeader
  | After duration
  | Expire address
  | Call message "address list"
  | WatchState
  | GetState
  | Sync roster nat
  | Gather nat
  | Stage
  | Validate "txn list"
  | NewBlock "txn list" digest "64 word"
  | Prepare block
  | Sign message roster
  | GenesisGet
  | PoolRemove txn
  | SetPlayers roster

subsection \<open>Results: a trace and either an error or a value\<close>

type_synonym 'a res = "action list \<times> (err + 'a)"

definition ret :: "'a \<Rightarrow> 'a res" where
  "ret x = ([], Inr x)"

definition fail :: "err \<Rightarrow> 'a res" where
  "fail e = ([], Inl e)"

definition act :: "action \<Rightarrow> unit res" where
  "act a = ([a], Inr ())"

definition acts :: "action list \<Rightarrow> unit res" where
  "acts as = (as, Inr ())"

text \<open>A call to a collaborator: the call is recorded, its answer is the environment's.\<close>

definition ext :: "action \<Rightarrow> err + 'a \<Rightarrow> 'a res" where
  "ext a r = ([a], r)"

text \<open>Sequencing with Go's early return on a non-nil error.\<close>

definition bind :: "'a res \<Rightarrow> ('a \<Rightarrow> 'b res) \<Rightarrow> 'b res" where
  "bind m f = (case m of
      (t, Inl e) \<Rightarrow> (t, Inl e)
    | (t, Inr x) \<Rightarrow> (case f x of (t', r) \<Rightarrow> (t @ t', r)))"

text \<open>if err != nil { return xerrors.Errorf(fmt, err) }\<close>

definition wrap :: "string \<Rightarrow> 'a res \<Rightarrow> 'a res" where
  "wrap fmt m = (case m of
      (t, Inl e) \<Rightarrow> (t, Inl (Errorf fmt e))
    | (t, Inr x) \<Rightarrow> (t, Inr x))"

text \<open>
  for resp := range resps { _, err = resp.GetMessageOrError();
  if err != nil { logger.Warn().Err(err).Msg(msg) } }
\<close>

fun fanIn :: "string \<Rightarrow> response list \<Rightarrow> action list" where
  "fanIn msg [] = []"
| "fanIn msg (Inl e # rs) = Log Warn (ErrField e) msg # fanIn msg rs"
| "fanIn msg (Inr m # rs) = fanIn msg rs"

subsection \<open>The service and its environment\<close>

definition Second :: duration where
  "Second = 1000000000"

definition RoundTimeout :: duration where
  "RoundTimeout = 10 * Second"

record service =
  me :: address
  timeout :: duration

text \<open>
  Modelled from the spec: pool.Gather of the transaction pool, which is not part of the
  sources at hand: "Gather(ctx, {min}) -> transactions (blocks until min available or ctx
  done)". The pool's content over time is a list of snapshots that ends when the context
  is done; Gather returns the first snapshot holding at least min transactions, and
  nothing (nil) when the context is done first.
\<close>

fun Gather_pool :: "nat \<Rightarrow> txn list list \<Rightarrow> (txn list) option" where
  "Gather_pool n [] = None"
| "Gather_pool n (p # ps) = (if n \<le> length p then Some p else Gather_pool n ps)"

text \<open>
  Modelled from the spec: roster.Diff(newRoster).GetNewAddresses(), whose code is not
  part of the sources at hand: "ChangeSet{added, removed} by set difference on addresses".
\<close>

definition Diff_new :: "roster \<Rightarrow> roster \<Rightarrow> address list" where
  "Diff_new old new = filter (\<lambda>a. a \<notin> set old) new"

record pbft_env =
  pool_feed :: "txn list list"
  ctx_done :: "err option"
  validate_res :: "err + txn list"
  stage_res :: "err option \<Rightarrow> err + digest"
  blocks_len :: "64 word"
  newblock_err :: "err option"
  prepare_res :: "err + digest"
  pbft_roster :: "err + roster"
  prepare_sign :: "err + signature"
  commit_sign :: "err + signature"
  done_call :: "err + response list"
  wake_roster :: "err + roster"
  genesis_get :: "err + genesis"
  wake_call :: "err + response list"

subsection \<open>prepareData, wakeUp, doPBFT\<close>

text \<open>
  The function handed to Stage: data, err = s.val.Validate(snap, txs), the error wrapped;
  callback is what it returns, validated what it leaves in the named result data (nil,
  here the empty list, when Validate failed).
\<close>

definition callback :: "pbft_env \<Rightarrow> err option" where
  "callback env = (case validate_res env of
      Inl e \<Rightarrow> Some (Errorf ''validation failed: %v'' e)
    | Inr d \<Rightarrow> None)"

definition validated :: "pbft_env \<Rightarrow> txn list" where
  "validated env = (case validate_res env of Inl e \<Rightarrow> [] | Inr d \<Rightarrow> d)"

text \<open>
  Stage runs the callback on a snapshot; its outcome is the environment's, given what the
  callback returned.
\<close>

definition prepareData :: "pbft_env \<Rightarrow> txn list \<Rightarrow> (txn list \<times> digest) res" where
  "prepareData env txs =
     bind (act Stage) (\<lambda>_.
     bind (wrap ''staging tree failed: %v''
             (ext (Validate txs) (stage_res env (callback env)))) (\<lambda>root.
     ret (validated env, root)))"

definition wakeUp :: "pbft_env \<Rightarrow> roster \<Rightarrow> unit res" where
  "wakeUp env roster =
     bind (wrap ''read roster failed: %v'' (ext GetCurrentRoster (wake_roster env))) (\<lambda>newRoster.
     bind (wrap ''read genesis failed: %v'' (ext GenesisGet (genesis_get env))) (\<lambda>genesis.
     bind (wrap ''rpc failed: %v''
             (ext (Call (GenesisMessage genesis) (Diff_new roster newRoster)) (wake_call env))) (\<lambda>resps.
     acts (fanIn ''wake up failed'' resps))))"

text \<open>
  ctx.Err() after Gather: non-nil when Gather came back because the context was done, or
  when the environment cancelled the context meanwhile.
\<close>

definition ctx_Err :: "pbft_env \<Rightarrow> err option" where
  "ctx_Err env = (case Gather_pool 1 (pool_feed env) of
      None \<Rightarrow> Some (case ctx_done env of Some e \<Rightarrow> e | None \<Rightarrow> New ''context deadline exceeded'')
    | Some txs \<Rightarrow> ctx_done env)"

definition gathered :: "pbft_env \<Rightarrow> txn list" where
  "gathered env = (case Gather_pool 1 (pool_feed env) of None \<Rightarrow> [] | Some txs \<Rightarrow> txs)"

definition doPBFT :: "pbft_env \<Rightarrow> unit res" where
  "doPBFT env =
     bind (ext (Gather 1) (Inr (gathered env))) (\<lambda>txs.
     case ctx_Err env of
       Some e \<Rightarrow> fail e
     | None \<Rightarrow>
     bind (wrap ''failed to prepare data: %v'' (prepareData env txs)) (\<lambda>(data, root).
     bind (wrap ''creating block failed: %v''
             (ext (NewBlock data root (blocks_len env + 1))
                (case newblock_err env of
                   Some e \<Rightarrow> Inl e
                 | None \<Rightarrow> Inr \<lparr>block_data = data, block_root = root,
                                block_index = blocks_len env + 1\<rparr>))) (\<lambda>block.
     bind (wrap ''pbft prepare failed: %v'' (ext (Prepare block) (prepare_res env))) (\<lambda>id.
     bind (wrap ''read roster failed: %v'' (ext GetCurrentRoster (pbft_roster env))) (\<lambda>roster.
     bind (wrap ''prepare phase failed: %v''
             (ext (Sign (BlockMessage block) roster) (prepare_sign env))) (\<lambda>sig.
     bind (act (Log Debug (SigField sig) ''prepare done'')) (\<lambda>_.
     bind (wrap ''commit phase failed: %v''
             (ext (Sign (Commit id sig) roster) (commit_sign env))) (\<lambda>sig'.
     bind (act (Log Debug (SigField sig') ''commit done'')) (\<lambda>_.
     bind (wrap ''rpc failed: %v'' (ext (Call (Done id sig') roster) (done_call env))) (\<lambda>resps.
     bind (acts (fanIn ''propagation failed'' resps)) (\<lambda>_.
     wrap ''wake up failed: %v'' (wakeUp env roster))))))))))))"

subsection \<open>refreshRoster\<close>

record refresh_env =
  roster_read :: "err + roster"
  set_players :: "err option"

definition refreshRoster :: "refresh_env \<Rightarrow> unit res" where
  "refreshRoster env =
     bind (wrap ''reading roster: %v'' (ext GetCurrentRoster (roster_read env))) (\<lambda>roster.
     wrap ''updating tx pool: %v''
       (ext (SetPlayers roster) (case set_players env of Some e \<Rightarrow> Inl e | None \<Rightarrow> Inr ())))"

subsection \<open>doRound\<close>

text \<open>
  What happens in the timeout branch of the select: the answers of Expire and of the
  View broadcast, the state read by GetState, and the states delivered by the channel of
  pbftsm.Watch up to its closing.
\<close>

record vc_env =
  expire_res :: "err + view"
  view_call :: "err + response list"
  state_now :: pbft_state
  state_feed :: "pbft_state list"

text \<open>
  for state != pbft.InitialState { state, more = <-statesCh;
  if !more { return xerrors.New("viewchange failed") } }
\<close>

fun awaitInitial :: "pbft_state \<Rightarrow> pbft_state list \<Rightarrow> err + unit" where
  "awaitInitial state [] =
     (if state \<noteq> InitialState then Inl (New ''viewchange failed'') else Inr ())"
| "awaitInitial state (next # feed) =
     (if state \<noteq> InitialState then awaitInitial next feed else Inr ())"

definition viewChange :: "service \<Rightarrow> roster \<Rightarrow> vc_env \<Rightarrow> unit res" where
  "viewChange s roster vc =
     bind (act (Log Warn NoField ''round reached the timeout'')) (\<lambda>_.
     bind (wrap ''pbft expire failed: %v'' (ext (Expire (me s)) (expire_res vc))) (\<lambda>view.
     bind (wrap ''rpc failed: %v''
             (ext (Call (ViewMessage (view_id view) (view_leader view)) roster) (view_call vc))) (\<lambda>resps.
     bind (acts (fanIn ''view propagation failure'' resps)) (\<lambda>_.
     bind (act WatchState) (\<lambda>_.
     bind (ext GetState (awaitInitial (state_now vc) (state_feed vc))) (\<lambda>_.
     act (Log Debug NoField ''view change successful'')))))))"

text \<open>The case the select of the waiting loop takes, as the environment decides.\<close>

datatype wait = Timeout vc_env | BlockEvent | Closing

text \<open>How the waiting loop is left: by a return nil inside it, or by its condition.\<close>

datatype flow = Returned | LoopExit

text \<open>
  for !s.me.Equal(leader) { select { ... } }: the variable leader is read once before the
  loop. The list holds the select's outcomes one iteration after the other; None means
  that the loop is still waiting when the list ends.
\<close>

fun waitLoop :: "service \<Rightarrow> address \<Rightarrow> roster \<Rightarrow> wait list \<Rightarrow> (flow res) option" where
  "waitLoop s leader roster [] =
     (if me s \<noteq> leader then None else Some (ret LoopExit))"
| "waitLoop s leader roster (w # ws) =
     (if me s \<noteq> leader then
        (case w of
           Timeout vc \<Rightarrow>
             (case viewChange s roster vc of
                (t, Inl e) \<Rightarrow> Some (After (timeout s) # t, Inl e)
              | (t, Inr _) \<Rightarrow>
                  (case waitLoop s leader roster ws of
                     None \<Rightarrow> None
                   | Some (t', r) \<Rightarrow> Some (After (timeout s) # t @ t', r)))
         | BlockEvent \<Rightarrow> Some ([After (timeout s)], Inr Returned)
         | Closing \<Rightarrow> Some ([After (timeout s)], Inr Returned))
      else Some (ret LoopExit))"

record round_env =
  round_roster :: "err + roster"
  leader_res :: "err + address"
  waits :: "wait list"
  len_round :: "64 word"
  sync_res :: "err option"
  len_pbft :: "64 word"
  pbft :: pbft_env

text \<open>The part of doRound after the waiting loop.\<close>

definition leaderRound :: "round_env \<Rightarrow> roster \<Rightarrow> unit res" where
  "leaderRound env roster =
     bind (act (Log Debug (IndexField (len_round env + 1)) ''round has started'')) (\<lambda>_.
     bind (wrap ''sync failed: %v''
             (ext (Sync roster (length roster))
                (case sync_res env of Some e \<Rightarrow> Inl e | None \<Rightarrow> Inr ()))) (\<lambda>_.
     bind (act (Log Debug (IndexField (len_pbft env + 1)) ''pbft has started'')) (\<lambda>_.
     wrap ''pbft failed: %v'' (doPBFT (pbft env)))))"

definition doRound :: "service \<Rightarrow> round_env \<Rightarrow> (unit res) option" where
  "doRound s env =
     (case wrap ''reading roster: %v'' (ext GetCurrentRoster (round_roster env)) of
        (t1, Inl e) \<Rightarrow> Some (t1, Inl e)
      | (t1, Inr roster) \<Rightarrow>
     (case wrap ''reading leader: %v'' (ext GetLeader (leader_res env)) of
        (t2, Inl e) \<Rightarrow> Some (t1 @ t2, Inl e)
      | (t2, Inr leader) \<Rightarrow>
     (case waitLoop s leader roster (waits env) of
        None \<Rightarrow> None
      | Some (t3, Inl e) \<Rightarrow> Some (t1 @ t2 @ t3, Inl e)
      | Some (t3, Inr Returned) \<Rightarrow> Some (t1 @ t2 @ t3, Inr ())
      | Some (t3, Inr LoopExit) \<Rightarrow>
          (case leaderRound env roster of (t4, r) \<Rightarrow> Some (t1 @ t2 @ t3 @ t4, r)))))"

subsection \<open>main and the goroutine of NewService that runs it\<close>

datatype start = Started | ClosingFirst

text \<open>
  One iteration of the for loop of main: its select either finds the closing channel
  closed, or takes the default case and runs a round in the given environment.
\<close>

datatype tick = SeenClosing | Round round_env

fun mainLoop :: "service \<Rightarrow> tick list \<Rightarrow> (unit res) option" where
  "mainLoop s [] = None"
| "mainLoop s (SeenClosing # ts) = Some (ret ())"
| "mainLoop s (Round env # ts) =
     (case doRound s env of
        None \<Rightarrow> None
      | Some (t, Inl e) \<Rightarrow> Some (t, Inl (Errorf ''round failed: %v'' e))
      | Some (t, Inr _) \<Rightarrow>
          (case mainLoop s ts of
             None \<Rightarrow> None
           | Some (t', r) \<Rightarrow> Some (t @ t', r)))"

record main_env =
  first_select :: start
  first_refresh :: refresh_env
  ticks :: "tick list"

definition main :: "service \<Rightarrow> main_env \<Rightarrow> (unit res) option" where
  "main s env =
     (case first_select env of
        ClosingFirst \<Rightarrow> Some (ret ())
      | Started \<Rightarrow>
          (case wrap ''refreshing roster: %v'' (refreshRoster (first_refresh env)) of
             (t, Inl e) \<Rightarrow> Some (t, Inl e)
           | (t, Inr _) \<Rightarrow>
               (case mainLoop s (ticks env) of
                  None \<Rightarrow> None
                | Some (t', r) \<Rightarrow>
                    Some (t @ Log Debug NoField ''node has started'' # t', r))))"

text \<open>The two signal channels of the service: True once the channel has been closed.\<close>

record signals =
  closing :: bool
  closed :: bool

text \<open>
  go func() { err := s.main(); if err != nil { logger.Err(err).Msg("main loop failed") };
  close(s.closed) }(). None: main has not returned.
\<close>

definition mainGoroutine :: "service \<Rightarrow> main_env \<Rightarrow> signals \<Rightarrow> (action list \<times> signals) option" where
  "mainGoroutine s env ch =
     (case main s env of
        None \<Rightarrow> None
      | Some (t, Inl e) \<Rightarrow>
          Some (t @ [Log Error (ErrField e) ''main loop failed''], ch\<lparr>closed := True\<rparr>)
      | Some (t, Inr _) \<Rightarrow> Some (t, ch\<lparr>closed := True\<rparr>))"

subsection \<open>Close\<close>

datatype outcome = Returns "err option" | Panics string | Blocks

text \<open>
  close(s.closing); <-s.closed; return nil. Closing a closed channel panics. The receive
  on closed waits for the other goroutines: their run from the moment closing is closed
  is the second argument (None: they never finish).
\<close>

definition Close :: "signals \<Rightarrow> (signals \<Rightarrow> signals option) \<Rightarrow> outcome \<times> signals" where
  "Close ch others =
     (if closing ch then (Panics ''close of closed channel'', ch)
      else (let ch' = ch\<lparr>closing := True\<rparr> in
            case others ch' of
              None \<Rightarrow> (Blocks, ch')
            | Some ch'' \<Rightarrow> (if closed ch'' then (Returns None, ch'') else (Blocks, ch''))))"

subsection \<open>GetProof\<close>

type_synonym proof_t = "nat"

definition GetProof :: "8 word list \<Rightarrow> proof_t option \<times> err option" where
  "GetProof key = (None, None)"

subsection \<open>Channels, Watch and watchBlocks\<close>

record 'a chan =
  buf :: "'a list"
  cap :: nat

definition make_chan :: "nat \<Rightarrow> 'a chan" where
  "make_chan n = \<lparr>buf = [], cap = n\<rparr>"

text \<open>select { case c <- x: default: }\<close>

definition try_send :: "'a chan \<Rightarrow> 'a \<Rightarrow> 'a chan" where
  "try_send c x = (if length (buf c) < cap c then c\<lparr>buf := buf c @ [x]\<rparr> else c)"

text \<open>c <- x: None while the buffer is full (the sender waits, nothing is lost).\<close>

definition send :: "'a chan \<Rightarrow> 'a \<Rightarrow> 'a chan option" where
  "send c x = (if length (buf c) < cap c then Some (c\<lparr>buf := buf c @ [x]\<rparr>) else None)"

record event =
  Index :: "64 word"

record wstate =
  events :: "event chan"
  watcher :: "event chan list"

text \<open>NewService: events: make(chan ordering.Event, 1), no observer yet.\<close>

definition new_wstate :: wstate where
  "new_wstate = \<lparr>events = make_chan 1, watcher = []\<rparr>"

text \<open>Watch: ch := make(chan ordering.Event, 1); s.watcher.Add(observer{ch: ch}).\<close>

definition Watch :: "wstate \<Rightarrow> wstate" where
  "Watch st = st\<lparr>watcher := watcher st @ [make_chan 1]\<rparr>"

definition NotifyCallback :: "event chan \<Rightarrow> event \<Rightarrow> event chan option" where
  "NotifyCallback ch ev = send ch ev"

text \<open>
  Modelled from the spec: watcher.Notify of the observable held by the processor, whose
  code is not part of the sources at hand: the event goes "to every external watcher
  (required: full fan-out, not dropped)": NotifyCallback is called on every registered
  observer, one after the other. None: a callback is waiting in its send.
\<close>

fun Notify :: "event chan list \<Rightarrow> event \<Rightarrow> (event chan list) option" where
  "Notify [] ev = Some []"
| "Notify (ch # chs) ev =
     (case NotifyCallback ch ev of
        None \<Rightarrow> None
      | Some ch' \<Rightarrow> (case Notify chs ev of None \<Rightarrow> None | Some chs' \<Rightarrow> Some (ch' # chs')))"

record link_env =
  link_txs :: "txn list"
  link_index :: "64 word"
  refresh :: refresh_env

text \<open>
  The body of the loop of watchBlocks for one link. The result holds the trace, the
  events channel after the select, and the observers' channels after Notify (None when
  Notify is waiting in a send).
\<close>

definition handleLink :: "wstate \<Rightarrow> link_env \<Rightarrow> action list \<times> event chan \<times> (event chan list) option" where
  "handleLink st l =
     (let removes = map PoolRemove (link_txs l);
          (t, r) = refreshRoster (refresh l);
          warn = (case r of
                    Inl e \<Rightarrow> [Log Error (ErrField e) ''roster refresh failed'']
                  | Inr _ \<Rightarrow> []);
          event = \<lparr>Index = link_index l\<rparr>
      in (removes @ t @ warn, try_send (events st) event, Notify (watcher st) event))"

text \<open>for link := range linkCh: the links one after the other, up to a waiting send.\<close>

fun watchBlocks :: "wstate \<Rightarrow> link_env list \<Rightarrow> action list \<times> wstate option" where
  "watchBlocks st [] = ([], Some st)"
| "watchBlocks st (l # ls) =
     (case handleLink st l of
        (t, ev, None) \<Rightarrow> (t, None)
      | (t, ev, Some ws) \<Rightarrow>
          (case watchBlocks \<lparr>events = ev, watcher = ws\<rparr> ls of (t', r) \<Rightarrow> (t @ t', r)))"

subsection \<open>Observations used in the statements\<close>

text \<open>The block that doPBFT builds once staging has given the tree root.\<close>

definition proposal :: "pbft_env \<Rightarrow> digest \<Rightarrow> block" where
  "proposal env root =
     \<lparr>block_data = validated env, block_root = root, block_index = blocks_len env + 1\<rparr>"

text \<open>A result with a trace put in front of it.\<close>

definition pres :: "action list \<Rightarrow> 'a res \<Rightarrow> 'a res" where
  "pres t m = (t @ fst m, snd m)"

text \<open>
  The three phases of a leader round as they show in a trace: the collective signing of
  the block message, the collective signing of the commit message, the RPC call that
  carries the Done message.
\<close>

datatype phase = PreparePhase | CommitPhase | FinalizePhase

fun phase_of :: "action \<Rightarrow> phase option" where
  "phase_of (Sign (BlockMessage b) r) = Some PreparePhase"
| "phase_of (Sign (Commit i sg) r) = Some CommitPhase"
| "phase_of (Call (Done i sg) r) = Some FinalizePhase"
| "phase_of a = None"

fun phases :: "action list \<Rightarrow> phase list" where
  "phases [] = []"
| "phases (a # t) = (case phase_of a of None \<Rightarrow> phases t | Some p \<Rightarrow> p # phases t)"

text \<open>
  The outcomes of the select of the waiting loop in which the closing case or the event
  case is taken at some iteration. Once closing is closed its case is ready at every
  select that is entered.
\<close>

fun wait_returns :: "wait list \<Rightarrow> bool" where
  "wait_returns [] = False"
| "wait_returns (Timeout vc # ws) = wait_returns ws"
| "wait_returns (BlockEvent # ws) = True"
| "wait_returns (Closing # ws) = True"

text \<open>
  The iterations of the loop of main in which the select at the head of the loop finds
  closing closed after finitely many rounds, each of them a round of the leader, a round
  that could not read the leader, or a round whose waiting loop takes the closing or the
  event case.
\<close>

fun sees_closing :: "service \<Rightarrow> tick list \<Rightarrow> bool" where
  "sees_closing s [] = False"
| "sees_closing s (SeenClosing # ts) = True"
| "sees_closing s (Round r # ts) =
     ((case leader_res r of
         Inl e \<Rightarrow> True
       | Inr leader \<Rightarrow> me s = leader \<or> wait_returns (waits r)) \<and>
      sees_closing s ts)"

subsection \<open>Scenarios\<close>

text \<open>
  A leader round in which every collaborator answers: the pool holds one transaction at
  its second snapshot, staging fails exactly when the callback does, the chain holds four
  blocks, one peer fails to answer the Done message, and address 40 has joined the roster.
\<close>

definition answers :: "err option \<Rightarrow> err + digest" where
  "answers cb = (case cb of Some e \<Rightarrow> Inl e | None \<Rightarrow> Inr 99)"

definition env_good :: pbft_env where
  "env_good = \<lparr>pool_feed = [[], [7]], ctx_done = None, validate_res = Inr [7],
     stage_res = answers, blocks_len = 4, newblock_err = None, prepare_res = Inr 55,
     pbft_roster = Inr [10, 20, 30], prepare_sign = Inr 11, commit_sign = Inr 12,
     done_call = Inr [Inr (Done 55 12), Inl (New ''peer unreachable'')],
     wake_roster = Inr [10, 20, 30, 40], genesis_get = Inr 0, wake_call = Inr []\<rparr>"

definition env_cancelled :: pbft_env where
  "env_cancelled = env_good\<lparr>ctx_done := Some (New ''context canceled'')\<rparr>"

definition env_prepare_fails :: pbft_env where
  "env_prepare_fails = env_good\<lparr>prepare_sign := Inl (New ''not enough signers'')\<rparr>"

definition env_commit_fails :: pbft_env where
  "env_commit_fails = env_good\<lparr>commit_sign := Inl (New ''not enough signers'')\<rparr>"

text \<open>NewService: me: param.Mino.GetAddress(), timeout: RoundTimeout.\<close>

definition newService :: "address \<Rightarrow> service" where
  "newService addr = \<lparr>me = addr, timeout = RoundTimeout\<rparr>"

definition round_good :: round_env where
  "round_good = \<lparr>round_roster = Inr [10, 20, 30], leader_res = Inr 10, waits = [],
     len_round = 4, sync_res = None, len_pbft = 4, pbft = env_good\<rparr>"

definition round_sync_fails :: round_env where
  "round_sync_fails = round_good\<lparr>sync_res := Some (New ''context deadline exceeded'')\<rparr>"

text \<open>A view change that succeeds although one peer does not answer the View message.\<close>

definition vc_good :: vc_env where
  "vc_good = \<lparr>expire_res = Inr \<lparr>view_id = 8, view_leader = 2\<rparr>,
     view_call = Inr [Inr (ViewMessage 8 2), Inl (New ''peer unreachable'')],
     state_now = ViewChangeState, state_feed = [InitialState]\<rparr>"

definition refresh_good :: refresh_env where
  "refresh_good = \<lparr>roster_read = Inr [10, 20, 30], set_players = None\<rparr>"

definition refresh_unreadable :: refresh_env where
  "refresh_unreadable = \<lparr>roster_read = Inl (New ''genesis not found''), set_players = None\<rparr>"

text \<open>
  Rounds of node 10 while node 20 leads: the timer fires once and the view change
  succeeds, then a block event arrives (round_follower) or closing is closed (round_idle).
\<close>

definition round_follower :: round_env where
  "round_follower = round_good\<lparr>leader_res := Inr 20, waits := [Timeout vc_good, BlockEvent]\<rparr>"

definition round_idle :: round_env where
  "round_idle = round_good\<lparr>leader_res := Inr 20, waits := [Timeout vc_good, Closing]\<rparr>"

text \<open>A started node that waits as a non-leader when closing is closed.\<close>

definition main_idle :: main_env where
  "main_idle = \<lparr>first_select = Started, first_refresh = refresh_good,
     ticks = [Round round_idle, SeenClosing]\<rparr>"

definition main_round_fails :: main_env where
  "main_round_fails = \<lparr>first_select = Started, first_refresh = refresh_good,
     ticks = [Round round_sync_fails, Round round_good]\<rparr>"

definition main_second_round_fails :: main_env where
  "main_second_round_fails = \<lparr>first_select = Started, first_refresh = refresh_good,
     ticks = [Round round_good, Round round_sync_fails, SeenClosing]\<rparr>"

definition main_refresh_fails :: main_env where
  "main_refresh_fails = \<lparr>first_select = Started, first_refresh = refresh_unreadable,
     ticks = [Round round_good]\<rparr>"

text \<open>A tick whose round returns nil, and the trace a tick leaves.\<close>

definition round_ok :: "service \<Rightarrow> tick \<Rightarrow> bool" where
  "round_ok s tk = (case tk of
      SeenClosing \<Rightarrow> False
    | Round env \<Rightarrow> (case doRound s env of Some (t, Inr u) \<Rightarrow> True | _ \<Rightarrow> False))"

definition tick_trace :: "service \<Rightarrow> tick \<Rightarrow> action list" where
  "tick_trace s tk = (case tk of
      SeenClosing \<Rightarrow> []
    | Round env \<Rightarrow> (case doRound s env of Some (t, r) \<Rightarrow> t | None \<Rightarrow> []))"

text \<open>NewService: closing: make(chan struct{}), closed: make(chan struct{}).\<close>

definition open_signals :: signals where
  "open_signals = \<lparr>closing = False, closed = False\<rparr>"

text \<open>
  The round loop has not taken the event of block 1 yet; two observers are registered
  and have read what they were sent.
\<close>

definition wstate_busy :: wstate where
  "wstate_busy = \<lparr>events = \<lparr>buf = [\<lparr>Index = 1\<rparr>], cap = 1\<rparr>,
     watcher = [make_chan 1, make_chan 1]\<rparr>"

definition link_two :: link_env where
  "link_two = \<lparr>link_txs = [7], link_index = 2, refresh = refresh_good\<rparr>"

definition link_unreadable :: link_env where
  "link_unreadable = \<lparr>link_txs = [7], link_index = 2, refresh = refresh_unreadable\<rparr>"

section \<open>Properties\<close>

subsection \<open>Running a function along one path\<close>

lemma pres_pair: "pres t (t', r) = (t @ t', r)"
  by (simp add: pres_def)

lemma run_basic:
  "ext a r = ([a], r)" "act a = ([a], Inr ())" "acts as = (as, Inr ())"
  "ret x = ([], Inr x)" "fail e = ([], Inl e)"
  by (simp_all add: ext_def act_def acts_def ret_def fail_def)

lemma run_wrap:
  "wrap fmt (t, Inl e) = (t, Inl (Errorf fmt e))" "wrap fmt (t, Inr x) = (t, Inr x)"
  by (simp_all add: wrap_def)

lemma run_bind:
  "bind (t, Inl e) f = (t, Inl e)" "bind (t, Inr x) f = pres t (f x)"
  by (simp_all add: bind_def pres_def split: prod.split)

lemma bind_weak_cong: "m = m' \<Longrightarrow> bind m f = bind m' f"
  by simp

lemmas run = run_basic run_wrap run_bind pres_pair

subsection \<open>The exit paths of doPBFT\<close>

lemmas doPBFT_norm = doPBFT_def wakeUp_def prepareData_def proposal_def run

lemma doPBFT_cases [case_names ctx stage newblock prepare roster prepare_sign commit_sign done_call wake_roster genesis wake_call complete]:
  obtains (ctx) e where
     "ctx_Err env = Some e"
     "doPBFT env =
        ([Gather 1],
         Inl e)"
  | (stage) e where
     "ctx_Err env = None" "stage_res env (callback env) = Inl e"
     "doPBFT env =
        ([Gather 1, Stage, Validate (gathered env)],
         Inl (Errorf ''failed to prepare data: %v'' (Errorf ''staging tree failed: %v'' e)))"
  | (newblock) root e where
     "ctx_Err env = None" "stage_res env (callback env) = Inr root"
     "newblock_err env = Some e"
     "doPBFT env =
        ([Gather 1, Stage, Validate (gathered env),
          NewBlock (validated env) root (blocks_len env + 1)],
         Inl (Errorf ''creating block failed: %v'' e))"
  | (prepare) root e where
     "ctx_Err env = None" "stage_res env (callback env) = Inr root"
     "newblock_err env = None" "prepare_res env = Inl e"
     "doPBFT env =
        ([Gather 1, Stage, Validate (gathered env),
          NewBlock (validated env) root (blocks_len env + 1), Prepare (proposal env root)],
         Inl (Errorf ''pbft prepare failed: %v'' e))"
  | (roster) root id e where
     "ctx_Err env = None" "stage_res env (callback env) = Inr root"
     "newblock_err env = None" "prepare_res env = Inr id" "pbft_roster env = Inl e"
     "doPBFT env =
        ([Gather 1, Stage, Validate (gathered env),
          NewBlock (validated env) root (blocks_len env + 1), Prepare (proposal env root),
          GetCurrentRoster],
         Inl (Errorf ''read roster failed: %v'' e))"
  | (prepare_sign) root id roster e where
     "ctx_Err env = None" "stage_res env (callback env) = Inr root"
     "newblock_err env = None" "prepare_res env = Inr id" "pbft_roster env = Inr roster"
     "prepare_sign env = Inl e"
     "doPBFT env =
        ([Gather 1, Stage, Validate (gathered env),
          NewBlock (validated env) root (blocks_len env + 1), Prepare (proposal env root),
          GetCurrentRoster, Sign (BlockMessage (proposal env root)) roster],
         Inl (Errorf ''prepare phase failed: %v'' e))"
  | (commit_sign) root id roster sig e where
     "ctx_Err env = None" "stage_res env (callback env) = Inr root"
     "newblock_err env = None" "prepare_res env = Inr id" "pbft_roster env = Inr roster"
     "prepare_sign env = Inr sig" "commit_sign env = Inl e"
     "doPBFT env =
        ([Gather 1, Stage, Validate (gathered env),
          NewBlock (validated env) root (blocks_len env + 1), Prepare (proposal env root),
          GetCurrentRoster, Sign (BlockMessage (proposal env root)) roster,
          Log Debug (SigField sig) ''prepare done'', Sign (Commit id sig) roster],
         Inl (Errorf ''commit phase failed: %v'' e))"
  | (done_call) root id roster sig sig' e where
     "ctx_Err env = None" "stage_res env (callback env) = Inr root"
     "newblock_err env = None" "prepare_res env = Inr id" "pbft_roster env = Inr roster"
     "prepare_sign env = Inr sig" "commit_sign env = Inr sig'" "done_call env = Inl e"
     "doPBFT env =
        ([Gather 1, Stage, Validate (gathered env),
          NewBlock (validated env) root (blocks_len env + 1), Prepare (proposal env root),
          GetCurrentRoster, Sign (BlockMessage (proposal env root)) roster,
          Log Debug (SigField sig) ''prepare done'', Sign (Commit id sig) roster,
          Log Debug (SigField sig') ''commit done'', Call (Done id sig') roster],
         Inl (Errorf ''rpc failed: %v'' e))"
  | (wake_roster) root id roster sig sig' resps e where
     "ctx_Err env = None" "stage_res env (callback env) = Inr root"
     "newblock_err env = None" "prepare_res env = Inr id" "pbft_roster env = Inr roster"
     "prepare_sign env = Inr sig" "commit_sign env = Inr sig'" "done_call env = Inr resps"
     "wake_roster env = Inl e"
     "doPBFT env =
        ([Gather 1, Stage, Validate (gathered env),
          NewBlock (validated env) root (blocks_len env + 1), Prepare (proposal env root),
          GetCurrentRoster, Sign (BlockMessage (proposal env root)) roster,
          Log Debug (SigField sig) ''prepare done'', Sign (Commit id sig) roster,
          Log Debug (SigField sig') ''commit done'',
          Call (Done id sig') roster] @ fanIn ''propagation failed'' resps @ [GetCurrentRoster],
         Inl (Errorf ''wake up failed: %v'' (Errorf ''read roster failed: %v'' e)))"
  | (genesis) root id roster sig sig' resps newRoster e where
     "ctx_Err env = None" "stage_res env (callback env) = Inr root"
     "newblock_err env = None" "prepare_res env = Inr id" "pbft_roster env = Inr roster"
     "prepare_sign env = Inr sig" "commit_sign env = Inr sig'" "done_call env = Inr resps"
     "wake_roster env = Inr newRoster" "genesis_get env = Inl e"
     "doPBFT env =
        ([Gather 1, Stage, Validate (gathered env),
          NewBlock (validated env) root (blocks_len env + 1), Prepare (proposal env root),
          GetCurrentRoster, Sign (BlockMessage (proposal env root)) roster,
          Log Debug (SigField sig) ''prepare done'', Sign (Commit id sig) roster,
          Log Debug (SigField sig') ''commit done'',
          Call (Done id sig') roster] @ fanIn ''propagation failed'' resps @ [GetCurrentRoster,
          GenesisGet],
         Inl (Errorf ''wake up failed: %v'' (Errorf ''read genesis failed: %v'' e)))"
  | (wake_call) root id roster sig sig' resps newRoster g e where
     "ctx_Err env = None" "stage_res env (callback env) = Inr root"
     "newblock_err env = None" "prepare_res env = Inr id" "pbft_roster env = Inr roster"
     "prepare_sign env = Inr sig" "commit_sign env = Inr sig'" "done_call env = Inr resps"
     "wake_roster env = Inr newRoster" "genesis_get env = Inr g" "wake_call env = Inl e"
     "doPBFT env =
        ([Gather 1, Stage, Validate (gathered env),
          NewBlock (validated env) root (blocks_len env + 1), Prepare (proposal env root),
          GetCurrentRoster, Sign (BlockMessage (proposal env root)) roster,
          Log Debug (SigField sig) ''prepare done'', Sign (Commit id sig) roster,
          Log Debug (SigField sig') ''commit done'',
          Call (Done id sig') roster] @ fanIn ''propagation failed'' resps @ [GetCurrentRoster,
          GenesisGet, Call (GenesisMessage g) (Diff_new roster newRoster)],
         Inl (Errorf ''wake up failed: %v'' (Errorf ''rpc failed: %v'' e)))"
  | (complete) root id roster sig sig' resps newRoster g wresps where
     "ctx_Err env = None" "stage_res env (callback env) = Inr root"
     "newblock_err env = None" "prepare_res env = Inr id" "pbft_roster env = Inr roster"
     "prepare_sign env = Inr sig" "commit_sign env = Inr sig'" "done_call env = Inr resps"
     "wake_roster env = Inr newRoster" "genesis_get env = Inr g"
     "wake_call env = Inr wresps"
     "doPBFT env =
        ([Gather 1, Stage, Validate (gathered env),
          NewBlock (validated env) root (blocks_len env + 1), Prepare (proposal env root),
          GetCurrentRoster, Sign (BlockMessage (proposal env root)) roster,
          Log Debug (SigField sig) ''prepare done'', Sign (Commit id sig) roster,
          Log Debug (SigField sig') ''commit done'',
          Call (Done id sig') roster] @ fanIn ''propagation failed'' resps @ [GetCurrentRoster,
          GenesisGet,
          Call (GenesisMessage g) (Diff_new roster newRoster)] @ fanIn ''wake up failed'' wresps,
         Inr ())"
proof (cases "ctx_Err env")
  case (Some e)
  show ?thesis
    by (rule ctx [OF Some]) (simp add: doPBFT_norm Some cong: bind_weak_cong)
next
  case None
  note f0 = None
  show ?thesis
  proof (cases "stage_res env (callback env)")
    case (Inl e)
    show ?thesis
      by (rule stage [OF f0 Inl]) (simp add: doPBFT_norm f0 Inl cong: bind_weak_cong)
  next
    case (Inr root)
    note f1 = Inr
    show ?thesis
    proof (cases "newblock_err env")
      case (Some e)
      show ?thesis
        by (rule newblock [OF f0 f1 Some]) (simp add: doPBFT_norm f0 f1 Some cong: bind_weak_cong)
    next
      case None
      note f2 = None
      show ?thesis
      proof (cases "prepare_res env")
        case (Inl e)
        show ?thesis
          by (rule prepare [OF f0 f1 f2 Inl]) (simp add: doPBFT_norm f0 f1 f2 Inl cong: bind_weak_cong)
      next
        case (Inr id)
        note f3 = Inr
        show ?thesis
        proof (cases "pbft_roster env")
          case (Inl e)
          show ?thesis
            by (rule roster [OF f0 f1 f2 f3 Inl]) (simp add: doPBFT_norm f0 f1 f2 f3 Inl cong: bind_weak_cong)
        next
          case (Inr roster)
          note f4 = Inr
          show ?thesis
          proof (cases "prepare_sign env")
            case (Inl e)
            show ?thesis
              by (rule prepare_sign [OF f0 f1 f2 f3 f4 Inl]) (simp add: doPBFT_norm f0 f1 f2 f3 f4 Inl cong: bind_weak_cong)
          next
            case (Inr sig)
            note f5 = Inr
            show ?thesis
            proof (cases "commit_sign env")
              case (Inl e)
              show ?thesis
                by (rule commit_sign [OF f0 f1 f2 f3 f4 f5 Inl]) (simp add: doPBFT_norm f0 f1 f2 f3 f4 f5 Inl cong: bind_weak_cong)
            next
              case (Inr sig')
              note f6 = Inr
              show ?thesis
              proof (cases "done_call env")
                case (Inl e)
                show ?thesis
                  by (rule done_call [OF f0 f1 f2 f3 f4 f5 f6 Inl]) (simp add: doPBFT_norm f0 f1 f2 f3 f4 f5 f6 Inl cong: bind_weak_cong)
              next
                case (Inr resps)
                note f7 = Inr
                show ?thesis
                proof (cases "wake_roster env")
                  case (Inl e)
                  show ?thesis
                    by (rule wake_roster [OF f0 f1 f2 f3 f4 f5 f6 f7 Inl]) (simp add: doPBFT_norm f0 f1 f2 f3 f4 f5 f6 f7 Inl cong: bind_weak_cong)
                next
                  case (Inr newRoster)
                  note f8 = Inr
                  show ?thesis
                  proof (cases "genesis_get env")
                    case (Inl e)
                    show ?thesis
                      by (rule genesis [OF f0 f1 f2 f3 f4 f5 f6 f7 f8 Inl]) (simp add: doPBFT_norm f0 f1 f2 f3 f4 f5 f6 f7 f8 Inl cong: bind_weak_cong)
                  next
                    case (Inr g)
                    note f9 = Inr
                    show ?thesis
                    proof (cases "wake_call env")
                      case (Inl e)
                      show ?thesis
                        by (rule wake_call [OF f0 f1 f2 f3 f4 f5 f6 f7 f8 f9 Inl]) (simp add: doPBFT_norm f0 f1 f2 f3 f4 f5 f6 f7 f8 f9 Inl cong: bind_weak_cong)
                    next
                      case (Inr wresps)
                      note f10 = Inr
                      show ?thesis
                        by (rule complete [OF f0 f1 f2 f3 f4 f5 f6 f7 f8 f9 f10]) (simp add: doPBFT_norm f0 f1 f2 f3 f4 f5 f6 f7 f8 f9 f10 cong: bind_weak_cong)
                    qed
                  qed
                qed
              qed
            qed
          qed
        qed
      qed
    qed
  qed
qed

lemma fanIn_only_logs: "a \<in> set (fanIn msg rs) \<Longrightarrow> \<exists>e. a = Log Warn (ErrField e) msg"
  by (induction msg rs rule: fanIn.induct) auto

lemma phases_append: "phases (t @ t') = phases t @ phases t'"
  by (induction t) (auto split: option.split)

lemma phases_fanIn: "phases (fanIn msg rs) = []"
  by (induction msg rs rule: fanIn.induct) auto

lemma Gather_pool_Some: "Gather_pool n ps = Some txs \<Longrightarrow> n \<le> length txs \<and> txs \<in> set ps"
  by (induction ps) (auto split: if_splits)

lemma ctx_Err_None: "ctx_Err env = None \<Longrightarrow> Gather_pool 1 (pool_feed env) = Some (gathered env)"
  by (auto simp: ctx_Err_def gathered_def split: option.splits)

lemma doPBFT_env_good:
  "doPBFT env_good =
     ([Gather 1, Stage, Validate [7], NewBlock [7] 99 5,
       Prepare \<lparr>block_data = [7], block_root = 99, block_index = 5\<rparr>, GetCurrentRoster,
       Sign (BlockMessage \<lparr>block_data = [7], block_root = 99, block_index = 5\<rparr>) [10, 20, 30],
       Log Debug (SigField 11) ''prepare done'', Sign (Commit 55 11) [10, 20, 30],
       Log Debug (SigField 12) ''commit done'', Call (Done 55 12) [10, 20, 30],
       Log Warn (ErrField (New ''peer unreachable'')) ''propagation failed'',
       GetCurrentRoster, GenesisGet, Call (GenesisMessage 0) [40]], Inr ())"
  by (simp add: doPBFT_norm env_good_def ctx_Err_def gathered_def callback_def validated_def
      answers_def Diff_new_def cong: bind_weak_cong)

text \<open>
  Claim C8. A leader round first gathers from the pool with Min = 1. If the round context
  is done after the gathering (in particular when Gather came back without a transaction),
  doPBFT returns the context's error and has done nothing else: no staging, no validation,
  no PBFT call. Validation is only ever run on a gathered batch that holds at least one
  transaction.
\<close>

theorem doPBFT_gather_respects_cancellation:
  "(\<exists>t. fst (doPBFT env) = Gather 1 # t) \<and>
   (\<forall>e. ctx_Err env = Some e \<longrightarrow> doPBFT env = ([Gather 1], Inl e)) \<and>
   (Gather_pool 1 (pool_feed env) = None \<longrightarrow> ctx_Err env \<noteq> None) \<and>
   (\<forall>txs. Validate txs \<in> set (fst (doPBFT env)) \<longrightarrow>
      ctx_Err env = None \<and> Gather_pool 1 (pool_feed env) = Some txs \<and> 1 \<le> length txs)"
proof (intro conjI allI impI)
  show "\<exists>t. fst (doPBFT env) = Gather 1 # t"
    by (cases rule: doPBFT_cases [of env]) simp_all
next
  fix e assume "ctx_Err env = Some e"
  then show "doPBFT env = ([Gather 1], Inl e)"
    by (cases rule: doPBFT_cases [of env]) simp_all
next
  assume "Gather_pool 1 (pool_feed env) = None"
  then show "ctx_Err env \<noteq> None"
    by (simp add: ctx_Err_def)
next
  fix txs assume v: "Validate txs \<in> set (fst (doPBFT env))"
  then have c: "ctx_Err env = None" and g: "txs = gathered env"
    by (cases rule: doPBFT_cases [of env]; auto dest: fanIn_only_logs)+
  from c show "ctx_Err env = None" .
  from ctx_Err_None [OF c] g show p: "Gather_pool 1 (pool_feed env) = Some txs"
    by simp
  from p show "1 \<le> length txs"
    by (auto dest: Gather_pool_Some)
qed

theorem doPBFT_gather_respects_cancellation_witness:
  "ctx_Err env_cancelled = Some (New ''context canceled'') \<and>
   doPBFT env_cancelled = ([Gather 1], Inl (New ''context canceled'')) \<and>
   Validate [7] \<in> set (fst (doPBFT env_good)) \<and> ctx_Err env_good = None \<and>
   Gather_pool 1 (pool_feed env_good) = Some [7] \<and> 1 \<le> length [7::txn]"
proof -
  have c: "ctx_Err env_cancelled = Some (New ''context canceled'')"
    by (simp add: env_cancelled_def env_good_def ctx_Err_def)
  have v: "Validate [7] \<in> set (fst (doPBFT env_good))"
    by (simp add: doPBFT_env_good)
  from c v doPBFT_gather_respects_cancellation [of env_cancelled]
    doPBFT_gather_respects_cancellation [of env_good]
  show ?thesis by simp
qed

text \<open>
  Claim C4. In every leader round the block built for the proposal, and so the block
  handed to Prepare and sent for the prepare signature, has index blocks.Len() + 1
  (in uint64 arithmetic), the length being read when the block is built; the block is
  built as soon as the context is live and staging has succeeded.
\<close>

theorem block_index_is_length_plus_one:
  "(\<forall>d r i. NewBlock d r i \<in> set (fst (doPBFT env)) \<longrightarrow> i = blocks_len env + 1) \<and>
   (\<forall>b. Prepare b \<in> set (fst (doPBFT env)) \<longrightarrow> block_index b = blocks_len env + 1) \<and>
   (\<forall>b r. Sign (BlockMessage b) r \<in> set (fst (doPBFT env)) \<longrightarrow>
      block_index b = blocks_len env + 1) \<and>
   (ctx_Err env = None \<longrightarrow> (\<forall>root. stage_res env (callback env) = Inr root \<longrightarrow>
      NewBlock (validated env) root (blocks_len env + 1) \<in> set (fst (doPBFT env))))"
  by (cases rule: doPBFT_cases [of env]) (auto simp: proposal_def dest: fanIn_only_logs)

theorem block_index_is_length_plus_one_witness:
  "Prepare \<lparr>block_data = [7], block_root = 99, block_index = 5\<rparr> \<in> set (fst (doPBFT env_good)) \<and>
   block_index \<lparr>block_data = [7], block_root = 99, block_index = 5\<rparr> = blocks_len env_good + 1 \<and>
   NewBlock [7] 99 5 \<in> set (fst (doPBFT env_good))"
proof -
  have "Prepare \<lparr>block_data = [7], block_root = 99, block_index = 5\<rparr> \<in> set (fst (doPBFT env_good))"
    by (simp add: doPBFT_env_good)
  with block_index_is_length_plus_one [of env_good] show ?thesis
    by (simp add: doPBFT_env_good)
qed

text \<open>
  Claim C2. In every run of doPBFT the phases reached form a prefix of prepare signing,
  commit signing, Done propagation, in this order; a run that completes has gone through
  all three; when the prepare signing fails neither the commit signing nor the
  propagation is reached, and when the commit signing fails the propagation is not.
\<close>

theorem prepare_commit_finalize_in_order:
  "prefix (phases (fst (doPBFT env))) [PreparePhase, CommitPhase, FinalizePhase] \<and>
   (snd (doPBFT env) = Inr () \<longrightarrow>
      phases (fst (doPBFT env)) = [PreparePhase, CommitPhase, FinalizePhase]) \<and>
   (\<forall>e. prepare_sign env = Inl e \<longrightarrow>
      CommitPhase \<notin> set (phases (fst (doPBFT env))) \<and>
      FinalizePhase \<notin> set (phases (fst (doPBFT env)))) \<and>
   (\<forall>e. commit_sign env = Inl e \<longrightarrow> FinalizePhase \<notin> set (phases (fst (doPBFT env))))"
  by (cases rule: doPBFT_cases [of env]) (simp_all add: phases_append phases_fanIn)

theorem prepare_commit_finalize_in_order_witness:
  "snd (doPBFT env_good) = Inr () \<and>
   phases (fst (doPBFT env_good)) = [PreparePhase, CommitPhase, FinalizePhase] \<and>
   prepare_sign env_prepare_fails = Inl (New ''not enough signers'') \<and>
   CommitPhase \<notin> set (phases (fst (doPBFT env_prepare_fails))) \<and>
   FinalizePhase \<notin> set (phases (fst (doPBFT env_prepare_fails))) \<and>
   commit_sign env_commit_fails = Inl (New ''not enough signers'') \<and>
   FinalizePhase \<notin> set (phases (fst (doPBFT env_commit_fails)))"
proof -
  have a: "snd (doPBFT env_good) = Inr ()"
    by (simp add: doPBFT_env_good)
  have b: "prepare_sign env_prepare_fails = Inl (New ''not enough signers'')"
    by (simp add: env_prepare_fails_def)
  have c: "commit_sign env_commit_fails = Inl (New ''not enough signers'')"
    by (simp add: env_commit_fails_def)
  from a b c prepare_commit_finalize_in_order [of env_good]
    prepare_commit_finalize_in_order [of env_prepare_fails]
    prepare_commit_finalize_in_order [of env_commit_fails]
  show ?thesis by simp
qed

lemma fst_wrap: "fst (wrap fmt m) = fst m"
  by (cases m) (auto simp: wrap_def split: sum.split)

lemma waitLoop_leader: "waitLoop s (me s) roster ws = Some ([], Inr LoopExit)"
  by (cases ws) (simp_all add: ret_def)

lemma doRound_leader:
  assumes "round_roster env = Inr roster" and "leader_res env = Inr (me s)"
  shows "doRound s env = Some
    (case sync_res env of
       Some e \<Rightarrow>
         ([GetCurrentRoster, GetLeader,
           Log Debug (IndexField (len_round env + 1)) ''round has started'',
           Sync roster (length roster)],
          Inl (Errorf ''sync failed: %v'' e))
     | None \<Rightarrow>
         ([GetCurrentRoster, GetLeader,
           Log Debug (IndexField (len_round env + 1)) ''round has started'',
           Sync roster (length roster),
           Log Debug (IndexField (len_pbft env + 1)) ''pbft has started''] @
          fst (doPBFT (pbft env)),
          snd (wrap ''pbft failed: %v'' (doPBFT (pbft env)))))"
proof (cases "sync_res env")
  case None
  with assms show ?thesis
    by (simp add: doRound_def leaderRound_def waitLoop_leader run pres_def fst_wrap
        cong: bind_weak_cong)
next
  case (Some e)
  with assms show ?thesis
    by (simp add: doRound_def leaderRound_def waitLoop_leader run cong: bind_weak_cong)
qed

lemma doRound_round_sync_fails:
  "doRound (newService 10) round_sync_fails = Some
     ([GetCurrentRoster, GetLeader, Log Debug (IndexField 5) ''round has started'',
       Sync [10, 20, 30] 3],
      Inl (Errorf ''sync failed: %v'' (New ''context deadline exceeded'')))"
proof -
  have a: "round_roster round_sync_fails = Inr [10, 20, 30]"
    and b: "leader_res round_sync_fails = Inr (me (newService 10))"
    by (simp_all add: round_sync_fails_def round_good_def newService_def)
  from doRound_leader [OF a b] show ?thesis
    by (simp add: round_sync_fails_def round_good_def)
qed

lemma doRound_round_good:
  "doRound (newService 10) round_good = Some
     ([GetCurrentRoster, GetLeader, Log Debug (IndexField 5) ''round has started'',
       Sync [10, 20, 30] 3, Log Debug (IndexField 5) ''pbft has started''] @
      fst (doPBFT env_good), Inr ())"
proof -
  have a: "round_roster round_good = Inr [10, 20, 30]"
    and b: "leader_res round_good = Inr (me (newService 10))"
    by (simp_all add: round_good_def newService_def)
  from doRound_leader [OF a b] show ?thesis
    by (simp add: round_good_def doPBFT_env_good run)
qed

lemma doPBFT_no_Sync: "Sync r n \<notin> set (fst (doPBFT env))"
  by (cases rule: doPBFT_cases [of env]) (auto dest: fanIn_only_logs)

text \<open>
  Claim C6. When the node is the leader, doRound runs the synchronizer on the roster it
  has just read with MinHard = roster.Len() before anything of doPBFT; when the
  synchronization fails the round returns that error wrapped in "sync failed" and nothing
  of doPBFT has run. No other Sync call occurs in the round.
\<close>

theorem leader_round_syncs_with_full_roster:
  assumes "round_roster env = Inr roster" and "leader_res env = Inr (me s)"
  shows "doRound s env = Some
      (case sync_res env of
         Some e \<Rightarrow>
           ([GetCurrentRoster, GetLeader,
             Log Debug (IndexField (len_round env + 1)) ''round has started'',
             Sync roster (length roster)],
            Inl (Errorf ''sync failed: %v'' e))
       | None \<Rightarrow>
           ([GetCurrentRoster, GetLeader,
             Log Debug (IndexField (len_round env + 1)) ''round has started'',
             Sync roster (length roster),
             Log Debug (IndexField (len_pbft env + 1)) ''pbft has started''] @
            fst (doPBFT (pbft env)),
            snd (wrap ''pbft failed: %v'' (doPBFT (pbft env))))) \<and>
    (\<forall>t res r n. doRound s env = Some (t, res) \<longrightarrow> Sync r n \<in> set t \<longrightarrow>
       r = roster \<and> n = length roster)"
proof (intro conjI allI impI)
  show "doRound s env = Some
      (case sync_res env of
         Some e \<Rightarrow>
           ([GetCurrentRoster, GetLeader,
             Log Debug (IndexField (len_round env + 1)) ''round has started'',
             Sync roster (length roster)],
            Inl (Errorf ''sync failed: %v'' e))
       | None \<Rightarrow>
           ([GetCurrentRoster, GetLeader,
             Log Debug (IndexField (len_round env + 1)) ''round has started'',
             Sync roster (length roster),
             Log Debug (IndexField (len_pbft env + 1)) ''pbft has started''] @
            fst (doPBFT (pbft env)),
            snd (wrap ''pbft failed: %v'' (doPBFT (pbft env)))))"
    by (rule doRound_leader [OF assms])
next
  fix t res r n
  assume d: "doRound s env = Some (t, res)" and m: "Sync r n \<in> set t"
  have "r = roster \<and> n = length roster"
  proof (cases "sync_res env")
    case None
    with doRound_leader [OF assms] d
    have "t = [GetCurrentRoster, GetLeader,
             Log Debug (IndexField (len_round env + 1)) ''round has started'',
             Sync roster (length roster),
             Log Debug (IndexField (len_pbft env + 1)) ''pbft has started''] @
            fst (doPBFT (pbft env))"
      by simp
    with m show ?thesis
      by (simp add: doPBFT_no_Sync)
  next
    case (Some e)
    with doRound_leader [OF assms] d
    have "t = [GetCurrentRoster, GetLeader,
             Log Debug (IndexField (len_round env + 1)) ''round has started'',
             Sync roster (length roster)]"
      by simp
    with m show ?thesis
      by simp
  qed
  then show "r = roster" and "n = length roster"
    by simp_all
qed

theorem leader_round_syncs_with_full_roster_witness:
  "round_roster round_sync_fails = Inr [10, 20, 30] \<and>
   leader_res round_sync_fails = Inr (me (newService 10)) \<and>
   doRound (newService 10) round_sync_fails = Some
     ([GetCurrentRoster, GetLeader, Log Debug (IndexField 5) ''round has started'',
       Sync [10, 20, 30] 3],
      Inl (Errorf ''sync failed: %v'' (New ''context deadline exceeded'')))"
proof -
  have a: "round_roster round_sync_fails = Inr [10, 20, 30]"
    and b: "leader_res round_sync_fails = Inr (me (newService 10))"
    by (simp_all add: round_sync_fails_def round_good_def newService_def)
  from leader_round_syncs_with_full_roster [OF a b, THEN conjunct1] a b show ?thesis
    by (simp add: round_sync_fails_def round_good_def)
qed

lemma awaitInitial_iff: "awaitInitial st feed = Inr () \<longleftrightarrow> InitialState \<in> set (st # feed)"
  by (induction st feed rule: awaitInitial.induct) auto

lemma awaitInitial_Inl: "awaitInitial st feed = Inl e \<Longrightarrow> e = New ''viewchange failed''"
  by (induction st feed rule: awaitInitial.induct) (auto split: if_splits)

lemma viewChange_cases [case_names expire call timeout changed]:
  obtains (expire) e where "expire_res vc = Inl e"
     "viewChange s roster vc =
        ([Log Warn NoField ''round reached the timeout'', Expire (me s)],
         Inl (Errorf ''pbft expire failed: %v'' e))"
  | (call) v e where "expire_res vc = Inr v" "view_call vc = Inl e"
     "viewChange s roster vc =
        ([Log Warn NoField ''round reached the timeout'', Expire (me s),
          Call (ViewMessage (view_id v) (view_leader v)) roster],
         Inl (Errorf ''rpc failed: %v'' e))"
  | (timeout) v resps e where "expire_res vc = Inr v" "view_call vc = Inr resps"
     "awaitInitial (state_now vc) (state_feed vc) = Inl e"
     "viewChange s roster vc =
        ([Log Warn NoField ''round reached the timeout'', Expire (me s),
          Call (ViewMessage (view_id v) (view_leader v)) roster] @
         fanIn ''view propagation failure'' resps @ [WatchState, GetState],
         Inl e)"
  | (changed) v resps where "expire_res vc = Inr v" "view_call vc = Inr resps"
     "awaitInitial (state_now vc) (state_feed vc) = Inr ()"
     "viewChange s roster vc =
        ([Log Warn NoField ''round reached the timeout'', Expire (me s),
          Call (ViewMessage (view_id v) (view_leader v)) roster] @
         fanIn ''view propagation failure'' resps @
         [WatchState, GetState, Log Debug NoField ''view change successful''],
         Inr ())"
proof (cases "expire_res vc")
  case (Inl e)
  show ?thesis
    by (rule expire [OF Inl]) (simp add: viewChange_def run Inl cong: bind_weak_cong)
next
  case (Inr v)
  note f0 = Inr
  show ?thesis
  proof (cases "view_call vc")
    case (Inl e)
    show ?thesis
      by (rule call [OF f0 Inl]) (simp add: viewChange_def run f0 Inl cong: bind_weak_cong)
  next
    case (Inr resps)
    note f1 = Inr
    show ?thesis
    proof (cases "awaitInitial (state_now vc) (state_feed vc)")
      case (Inl e)
      show ?thesis
        by (rule timeout [OF f0 f1 Inl])
          (simp add: viewChange_def run f0 f1 Inl cong: bind_weak_cong)
    next
      case (Inr u)
      then have f2: "awaitInitial (state_now vc) (state_feed vc) = Inr ()"
        by simp
      show ?thesis
        by (rule changed [OF f0 f1 f2])
          (simp add: viewChange_def run f0 f1 f2 cong: bind_weak_cong)
    qed
  qed
qed

lemma waitLoop_Timeout:
  assumes "me s \<noteq> leader"
  shows "waitLoop s leader roster (Timeout vc # ws) =
    (case expire_res vc of
       Inl e \<Rightarrow>
         Some ([After (timeout s), Log Warn NoField ''round reached the timeout'',
                Expire (me s)],
               Inl (Errorf ''pbft expire failed: %v'' e))
     | Inr v \<Rightarrow>
    (case view_call vc of
       Inl e \<Rightarrow>
         Some ([After (timeout s), Log Warn NoField ''round reached the timeout'',
                Expire (me s), Call (ViewMessage (view_id v) (view_leader v)) roster],
               Inl (Errorf ''rpc failed: %v'' e))
     | Inr resps \<Rightarrow>
         (if InitialState \<in> set (state_now vc # state_feed vc) then
            (case waitLoop s leader roster ws of
               None \<Rightarrow> None
             | Some (t, r) \<Rightarrow>
                 Some ([After (timeout s), Log Warn NoField ''round reached the timeout'',
                        Expire (me s),
                        Call (ViewMessage (view_id v) (view_leader v)) roster] @
                       fanIn ''view propagation failure'' resps @
                       [WatchState, GetState,
                        Log Debug NoField ''view change successful''] @ t, r))
          else
            Some ([After (timeout s), Log Warn NoField ''round reached the timeout'',
                   Expire (me s), Call (ViewMessage (view_id v) (view_leader v)) roster] @
                  fanIn ''view propagation failure'' resps @ [WatchState, GetState],
                  Inl (New ''viewchange failed'')))))"
proof (cases rule: viewChange_cases [of vc s roster])
  case (expire e)
  with assms show ?thesis by simp
next
  case (call v e)
  with assms show ?thesis by simp
next
  case (timeout v resps e)
  from timeout(3) have n: "InitialState \<notin> set (state_now vc # state_feed vc)"
    using awaitInitial_iff [of "state_now vc" "state_feed vc"] by simp
  have "e = New ''viewchange failed''"
    using timeout(3) by (rule awaitInitial_Inl)
  with assms timeout n show ?thesis by simp
next
  case (changed v resps)
  from changed(3) have n: "InitialState \<in> set (state_now vc # state_feed vc)"
    using awaitInitial_iff [of "state_now vc" "state_feed vc"] by simp
  with assms changed show ?thesis
    by (simp split: option.split)
qed

lemma waitLoop_never_exits:
  "me s \<noteq> leader \<Longrightarrow> waitLoop s leader roster ws \<noteq> Some (t, Inr LoopExit)"
proof (induction ws arbitrary: t)
  case Nil
  then show ?case by simp
next
  case (Cons w ws)
  show ?case
  proof (cases w)
    case (Timeout vc)
    obtain tv rv where v: "viewChange s roster vc = (tv, rv)"
      by (cases "viewChange s roster vc")
    show ?thesis
    proof (cases rv)
      case (Inl e)
      with Cons.prems Timeout v show ?thesis by simp
    next
      case (Inr u)
      show ?thesis
      proof (cases "waitLoop s leader roster ws")
        case None
        with Cons.prems Timeout v Inr show ?thesis by simp
      next
        case (Some p)
        obtain t' r' where p: "p = (t', r')" by (cases p)
        from Cons.IH [OF Cons.prems, of t'] Some p have "r' \<noteq> Inr LoopExit"
          by auto
        with Cons.prems Timeout v Inr Some p show ?thesis by simp
      qed
    qed
  next
    case BlockEvent
    with Cons.prems show ?thesis by simp
  next
    case Closing
    with Cons.prems show ?thesis by simp
  qed
qed

lemma doRound_follower:
  assumes "round_roster env = Inr roster" and "leader_res env = Inr leader"
    and "me s \<noteq> leader"
  shows "doRound s env =
    (case waitLoop s leader roster (waits env) of
       None \<Rightarrow> None
     | Some (t, r) \<Rightarrow>
         Some (GetCurrentRoster # GetLeader # t,
               case r of Inl e \<Rightarrow> Inl e | Inr f \<Rightarrow> Inr ()))"
proof (cases "waitLoop s leader roster (waits env)")
  case None
  with assms show ?thesis
    by (simp add: doRound_def run)
next
  case (Some p)
  obtain t r where p: "p = (t, r)" by (cases p)
  show ?thesis
  proof (cases r)
    case (Inl e)
    with assms Some p show ?thesis
      by (simp add: doRound_def run)
  next
    case (Inr f)
    with waitLoop_never_exits [OF assms(3), of roster "waits env" t] Some p
    have "f = Returned"
      by (cases f) auto
    with assms Some p Inr show ?thesis
      by (simp add: doRound_def run)
  qed
qed

lemma doRound_waits_update:
  "round_roster (env\<lparr>waits := ws\<rparr>) = round_roster env"
  "leader_res (env\<lparr>waits := ws\<rparr>) = leader_res env"
  "waits (env\<lparr>waits := ws\<rparr>) = ws"
  by simp_all

lemma doRound_follower_event:
  "doRound (newService 10) (round_follower\<lparr>waits := [BlockEvent]\<rparr>) =
     Some ([GetCurrentRoster, GetLeader, After 10000000000], Inr ())"
proof -
  have "me (newService 10) \<noteq> 20"
    by (simp add: newService_def)
  from doRound_follower [of "round_follower\<lparr>waits := [BlockEvent]\<rparr>" "[10, 20, 30]" 20,
      OF _ _ this]
  show ?thesis
    by (simp add: round_follower_def round_good_def newService_def RoundTimeout_def
        Second_def)
qed

text \<open>
  Claim C3. In a round (doRound) of a node that is not the leader, when the select takes
  the timer case (the timer is s.timeout, which NewService sets to RoundTimeout), the
  node calls Expire, then sends the resulting View to the roster by RPC, then waits on
  the state feed until the state is Initial, and only then evaluates the loop condition
  again (with the leader read at the start of the round): from there the round goes on
  as a non-leader round with the remaining select outcomes does after its two reads. The
  failures of single peers during the broadcast only add warnings to the log: the outcome
  does not depend on them. An error of Expire or of the RPC call, or a state feed that
  closes before Initial, ends the round with that error.
\<close>

theorem timeout_triggers_view_change:
  assumes "round_roster env = Inr roster" and "leader_res env = Inr leader"
    and "me s \<noteq> leader" and "waits env = Timeout vc # ws"
  shows "doRound s env =
    (case expire_res vc of
       Inl e \<Rightarrow>
         Some ([GetCurrentRoster, GetLeader, After (timeout s),
                Log Warn NoField ''round reached the timeout'', Expire (me s)],
               Inl (Errorf ''pbft expire failed: %v'' e))
     | Inr v \<Rightarrow>
    (case view_call vc of
       Inl e \<Rightarrow>
         Some ([GetCurrentRoster, GetLeader, After (timeout s),
                Log Warn NoField ''round reached the timeout'', Expire (me s),
                Call (ViewMessage (view_id v) (view_leader v)) roster],
               Inl (Errorf ''rpc failed: %v'' e))
     | Inr resps \<Rightarrow>
         (if InitialState \<in> set (state_now vc # state_feed vc) then
            (case doRound s (env\<lparr>waits := ws\<rparr>) of
               None \<Rightarrow> None
             | Some (t, r) \<Rightarrow>
                 Some ([GetCurrentRoster, GetLeader, After (timeout s),
                        Log Warn NoField ''round reached the timeout'', Expire (me s),
                        Call (ViewMessage (view_id v) (view_leader v)) roster] @
                       fanIn ''view propagation failure'' resps @
                       [WatchState, GetState,
                        Log Debug NoField ''view change successful''] @ drop 2 t, r))
          else
            Some ([GetCurrentRoster, GetLeader, After (timeout s),
                   Log Warn NoField ''round reached the timeout'', Expire (me s),
                   Call (ViewMessage (view_id v) (view_leader v)) roster] @
                  fanIn ''view propagation failure'' resps @ [WatchState, GetState],
                  Inl (New ''viewchange failed''))))) \<and>
    (\<forall>resps. \<forall>a\<in>set (fanIn ''view propagation failure'' resps).
       \<exists>e. a = Log Warn (ErrField e) ''view propagation failure'')"
proof (rule conjI)
  show "\<forall>resps. \<forall>a\<in>set (fanIn ''view propagation failure'' resps).
       \<exists>e. a = Log Warn (ErrField e) ''view propagation failure''"
    by (blast dest: fanIn_only_logs)
next
  have a: "doRound s env =
    (case waitLoop s leader roster (Timeout vc # ws) of
       None \<Rightarrow> None
     | Some (t, r) \<Rightarrow>
         Some (GetCurrentRoster # GetLeader # t,
               case r of Inl e \<Rightarrow> Inl e | Inr f \<Rightarrow> Inr ()))"
    using doRound_follower [OF assms(1-3)] assms(4) by simp
  have b: "doRound s (env\<lparr>waits := ws\<rparr>) =
    (case waitLoop s leader roster ws of
       None \<Rightarrow> None
     | Some (t, r) \<Rightarrow>
         Some (GetCurrentRoster # GetLeader # t,
               case r of Inl e \<Rightarrow> Inl e | Inr f \<Rightarrow> Inr ()))"
    using doRound_follower [of "env\<lparr>waits := ws\<rparr>" roster leader s] assms(1-3)
    by simp
  note a' = a [unfolded waitLoop_Timeout [OF assms(3), of roster vc ws]]
  show "doRound s env =
    (case expire_res vc of
       Inl e \<Rightarrow>
         Some ([GetCurrentRoster, GetLeader, After (timeout s),
                Log Warn NoField ''round reached the timeout'', Expire (me s)],
               Inl (Errorf ''pbft expire failed: %v'' e))
     | Inr v \<Rightarrow>
    (case view_call vc of
       Inl e \<Rightarrow>
         Some ([GetCurrentRoster, GetLeader, After (timeout s),
                Log Warn NoField ''round reached the timeout'', Expire (me s),
                Call (ViewMessage (view_id v) (view_leader v)) roster],
               Inl (Errorf ''rpc failed: %v'' e))
     | Inr resps \<Rightarrow>
         (if InitialState \<in> set (state_now vc # state_feed vc) then
            (case doRound s (env\<lparr>waits := ws\<rparr>) of
               None \<Rightarrow> None
             | Some (t, r) \<Rightarrow>
                 Some ([GetCurrentRoster, GetLeader, After (timeout s),
                        Log Warn NoField ''round reached the timeout'', Expire (me s),
                        Call (ViewMessage (view_id v) (view_leader v)) roster] @
                       fanIn ''view propagation failure'' resps @
                       [WatchState, GetState,
                        Log Debug NoField ''view change successful''] @ drop 2 t, r))
          else
            Some ([GetCurrentRoster, GetLeader, After (timeout s),
                   Log Warn NoField ''round reached the timeout'', Expire (me s),
                   Call (ViewMessage (view_id v) (view_leader v)) roster] @
                  fanIn ''view propagation failure'' resps @ [WatchState, GetState],
                  Inl (New ''viewchange failed'')))))"
  proof (cases "expire_res vc")
    case (Inl e)
    with a' show ?thesis
      by simp
  next
    case (Inr v)
    note f0 = Inr
    show ?thesis
    proof (cases "view_call vc")
      case (Inl e)
      with a' f0 show ?thesis
        by simp
    next
      case (Inr resps)
      note f1 = Inr
      show ?thesis
      proof (cases "InitialState \<in> set (state_now vc # state_feed vc)")
        case False
        with a' f0 f1 show ?thesis
          by simp
      next
        case True
        show ?thesis
        proof (cases "waitLoop s leader roster ws")
          case None
          with a' b f0 f1 True show ?thesis
            by simp
        next
          case (Some p)
          obtain t r where "p = (t, r)" by (cases p)
          with a' b Some f0 f1 True show ?thesis
            by simp
        qed
      qed
    qed
  qed
qed

theorem timeout_triggers_view_change_witness:
  "round_roster round_follower = Inr [10, 20, 30] \<and>
   leader_res round_follower = Inr 20 \<and>
   me (newService 10) \<noteq> 20 \<and>
   waits round_follower = Timeout vc_good # [BlockEvent] \<and>
   timeout (newService 10) = 10000000000 \<and>
   doRound (newService 10) round_follower = Some
     ([GetCurrentRoster, GetLeader, After 10000000000,
       Log Warn NoField ''round reached the timeout'', Expire 10,
       Call (ViewMessage 8 2) [10, 20, 30],
       Log Warn (ErrField (New ''peer unreachable'')) ''view propagation failure'',
       WatchState, GetState, Log Debug NoField ''view change successful'',
       After 10000000000],
      Inr ())"
proof -
  have a: "round_roster round_follower = Inr [10, 20, 30]"
    and b: "leader_res round_follower = Inr 20"
    and c: "me (newService 10) \<noteq> 20"
    and d: "waits round_follower = Timeout vc_good # [BlockEvent]"
    and e: "timeout (newService 10) = 10000000000"
    by (simp_all add: round_follower_def round_good_def newService_def RoundTimeout_def
        Second_def)
  have f: "me (newService 10) = 10"
    by (simp add: newService_def)
  from timeout_triggers_view_change [OF a b c d, THEN conjunct1] a b c d e
  show ?thesis
    by (simp add: doRound_follower_event vc_good_def f)
qed

lemma refreshRoster_good: "refreshRoster refresh_good = ([GetCurrentRoster, SetPlayers [10, 20, 30]], Inr ())"
  by (simp add: refreshRoster_def refresh_good_def run cong: bind_weak_cong)

lemma refreshRoster_unreadable:
  "refreshRoster refresh_unreadable =
     ([GetCurrentRoster], Inl (Errorf ''reading roster: %v'' (New ''genesis not found'')))"
  by (simp add: refreshRoster_def refresh_unreadable_def run cong: bind_weak_cong)

lemma mainLoop_prefix:
  assumes "\<forall>tk\<in>set pre. round_ok s tk"
  shows "mainLoop s (pre @ rest) =
    (case mainLoop s rest of
       None \<Rightarrow> None
     | Some (t, r) \<Rightarrow> Some (concat (map (tick_trace s) pre) @ t, r))"
  using assms
proof (induction pre)
  case Nil
  then show ?case by (simp split: option.split)
next
  case (Cons tk pre)
  then obtain env t where tk: "tk = Round env" and d: "doRound s env = Some (t, Inr ())"
    by (auto simp: round_ok_def split: tick.splits option.splits sum.splits)
  from Cons have "mainLoop s (pre @ rest) =
    (case mainLoop s rest of
       None \<Rightarrow> None
     | Some (t, r) \<Rightarrow> Some (concat (map (tick_trace s) pre) @ t, r))"
    by simp
  moreover from tk d have "tick_trace s tk = t"
    by (simp add: tick_trace_def)
  ultimately show ?case
    using tk d by (simp split: option.split)
qed

text \<open>
  Claim C1, amended. When a round returns an error, whatever its cause, main neither logs
  it nor starts another round: it returns the error wrapped in "round failed", after the
  rounds that went well before it. The goroutine of NewService then logs "main loop
  failed" and closes the closed channel.
\<close>

theorem main_returns_first_round_error:
  assumes "first_select menv = Started"
    and "refreshRoster (first_refresh menv) = (t0, Inr ())"
    and "ticks menv = pre @ Round env # rest"
    and "\<forall>tk\<in>set pre. round_ok s tk"
    and "doRound s env = Some (t, Inl e)"
  shows "main s menv = Some
      (t0 @ Log Debug NoField ''node has started'' # concat (map (tick_trace s) pre) @ t,
       Inl (Errorf ''round failed: %v'' e)) \<and>
    mainGoroutine s menv ch = Some
      (t0 @ Log Debug NoField ''node has started'' # concat (map (tick_trace s) pre) @ t @
       [Log Error (ErrField (Errorf ''round failed: %v'' e)) ''main loop failed''],
       ch\<lparr>closed := True\<rparr>)"
proof -
  from assms(5) have "mainLoop s (Round env # rest) =
      Some (t, Inl (Errorf ''round failed: %v'' e))"
    by simp
  with mainLoop_prefix [OF assms(4), of "Round env # rest"]
  have "mainLoop s (ticks menv) =
      Some (concat (map (tick_trace s) pre) @ t, Inl (Errorf ''round failed: %v'' e))"
    by (simp add: assms(3))
  with assms(1,2) have m: "main s menv = Some
      (t0 @ Log Debug NoField ''node has started'' # concat (map (tick_trace s) pre) @ t,
       Inl (Errorf ''round failed: %v'' e))"
    by (simp add: main_def run)
  then show ?thesis
    by (simp add: mainGoroutine_def)
qed

theorem main_returns_first_round_error_witness:
  "first_select main_second_round_fails = Started \<and>
   round_ok (newService 10) (Round round_good) \<and>
   map_option snd (main (newService 10) main_second_round_fails) =
     Some (Inl (Errorf ''round failed: %v''
                  (Errorf ''sync failed: %v'' (New ''context deadline exceeded'')))) \<and>
   map_option snd (mainGoroutine (newService 10) main_second_round_fails open_signals) =
     Some \<lparr>closing = False, closed = True\<rparr>"
proof -
  have a: "first_select main_second_round_fails = Started"
    and c: "ticks main_second_round_fails =
      [Round round_good] @ Round round_sync_fails # [SeenClosing]"
    and b: "refreshRoster (first_refresh main_second_round_fails) =
      ([GetCurrentRoster, SetPlayers [10, 20, 30]], Inr ())"
    by (simp_all add: main_second_round_fails_def refreshRoster_good)
  have d: "\<forall>tk\<in>set [Round round_good]. round_ok (newService 10) tk"
    by (simp add: round_ok_def doRound_round_good)
  from main_returns_first_round_error [OF a b c d doRound_round_sync_fails, of open_signals]
    a d
  show ?thesis
    by (simp add: open_signals_def)
qed

text \<open>
  As stated, the claim fails: a round that fails in the synchronization (a deadline
  passed while peers were asked) makes main return; the round that the environment holds
  ready after it never starts.
\<close>

theorem round_failure_ends_main_counterexample:
  "main (newService 10) main_round_fails = Some
     ([GetCurrentRoster, SetPlayers [10, 20, 30], Log Debug NoField ''node has started'',
       GetCurrentRoster, GetLeader, Log Debug (IndexField 5) ''round has started'',
       Sync [10, 20, 30] 3],
      Inl (Errorf ''round failed: %v''
             (Errorf ''sync failed: %v'' (New ''context deadline exceeded''))))"
  by (simp add: main_def main_round_fails_def refreshRoster_good doRound_round_sync_fails
      run)

lemma refreshRoster_unread:
  "roster_read renv = Inl e \<Longrightarrow>
   refreshRoster renv = ([GetCurrentRoster], Inl (Errorf ''reading roster: %v'' e))"
  by (simp add: refreshRoster_def run cong: bind_weak_cong)

text \<open>
  Claim C7, amended. When refreshRoster fails in watchBlocks, the failure is logged and
  the flow goes on: the event of the link is offered and fanned out as if the refresh had
  succeeded, and the next link is handled. When the roster cannot be read, SetPlayers is
  not called. When the refreshRoster at the start of main fails, main returns the error
  wrapped in "refreshing roster" and no round is run.
\<close>

theorem refresh_failure_warns_in_watch_and_ends_main:
  assumes "refreshRoster renv = (t, Inl e)"
  shows "(refresh l = renv \<longrightarrow>
      handleLink st l =
        (map PoolRemove (link_txs l) @ t @ [Log Error (ErrField e) ''roster refresh failed''],
         try_send (events st) \<lparr>Index = link_index l\<rparr>,
         Notify (watcher st) \<lparr>Index = link_index l\<rparr>)) \<and>
    (refresh l = renv \<longrightarrow>
      (\<forall>ws. Notify (watcher st) \<lparr>Index = link_index l\<rparr> = Some ws \<longrightarrow>
         watchBlocks st (l # ls) =
           (map PoolRemove (link_txs l) @ t @
            [Log Error (ErrField e) ''roster refresh failed''] @
            fst (watchBlocks \<lparr>events = try_send (events st) \<lparr>Index = link_index l\<rparr>,
                              watcher = ws\<rparr> ls),
            snd (watchBlocks \<lparr>events = try_send (events st) \<lparr>Index = link_index l\<rparr>,
                              watcher = ws\<rparr> ls)))) \<and>
    (first_select menv = Started \<and> first_refresh menv = renv \<longrightarrow>
      main s menv = Some (t, Inl (Errorf ''refreshing roster: %v'' e))) \<and>
    (\<forall>e'. roster_read renv = Inl e' \<longrightarrow> (\<forall>r. SetPlayers r \<notin> set t))"
proof (intro conjI impI allI)
  assume r: "refresh l = renv"
  with assms show h: "handleLink st l =
        (map PoolRemove (link_txs l) @ t @ [Log Error (ErrField e) ''roster refresh failed''],
         try_send (events st) \<lparr>Index = link_index l\<rparr>,
         Notify (watcher st) \<lparr>Index = link_index l\<rparr>)"
    by (simp add: handleLink_def Let_def)
  fix ws assume "Notify (watcher st) \<lparr>Index = link_index l\<rparr> = Some ws"
  with h show "watchBlocks st (l # ls) =
           (map PoolRemove (link_txs l) @ t @
            [Log Error (ErrField e) ''roster refresh failed''] @
            fst (watchBlocks \<lparr>events = try_send (events st) \<lparr>Index = link_index l\<rparr>,
                              watcher = ws\<rparr> ls),
            snd (watchBlocks \<lparr>events = try_send (events st) \<lparr>Index = link_index l\<rparr>,
                              watcher = ws\<rparr> ls))"
    by (simp split: prod.split)
next
  assume "first_select menv = Started \<and> first_refresh menv = renv"
  with assms show "main s menv = Some (t, Inl (Errorf ''refreshing roster: %v'' e))"
    by (simp add: main_def run)
next
  fix e' r assume "roster_read renv = Inl e'"
  from refreshRoster_unread [OF this] assms show "SetPlayers r \<notin> set t"
    by simp
qed

theorem refresh_failure_warns_in_watch_and_ends_main_witness:
  "refreshRoster refresh_unreadable =
     ([GetCurrentRoster], Inl (Errorf ''reading roster: %v'' (New ''genesis not found''))) \<and>
   handleLink wstate_busy link_unreadable =
     ([PoolRemove 7, GetCurrentRoster,
       Log Error (ErrField (Errorf ''reading roster: %v'' (New ''genesis not found'')))
         ''roster refresh failed''],
      \<lparr>buf = [\<lparr>Index = 1\<rparr>], cap = 1\<rparr>,
      Some [\<lparr>buf = [\<lparr>Index = 2\<rparr>], cap = 1\<rparr>, \<lparr>buf = [\<lparr>Index = 2\<rparr>], cap = 1\<rparr>]) \<and>
   main (newService 10) main_refresh_fails = Some
     ([GetCurrentRoster],
      Inl (Errorf ''refreshing roster: %v''
             (Errorf ''reading roster: %v'' (New ''genesis not found''))))"
proof -
  have a: "refresh link_unreadable = refresh_unreadable"
    and b: "first_select main_refresh_fails = Started \<and>
      first_refresh main_refresh_fails = refresh_unreadable"
    by (simp_all add: link_unreadable_def main_refresh_fails_def)
  from refresh_failure_warns_in_watch_and_ends_main [OF refreshRoster_unreadable,
      of link_unreadable wstate_busy "[]" main_refresh_fails "newService 10"] a b
  show ?thesis
    by (simp add: refreshRoster_unreadable link_unreadable_def wstate_busy_def try_send_def
        NotifyCallback_def send_def make_chan_def)
qed

text \<open>
  As stated, the claim fails: when the roster cannot be read at the start of main, main
  returns the error and the goroutine closes the closed channel; the node does not go on.
\<close>

theorem refresh_failure_ends_main_counterexample:
  "main (newService 10) main_refresh_fails = Some
     ([GetCurrentRoster],
      Inl (Errorf ''refreshing roster: %v''
             (Errorf ''reading roster: %v'' (New ''genesis not found'')))) \<and>
   map_option snd (mainGoroutine (newService 10) main_refresh_fails open_signals) =
     Some \<lparr>closing = False, closed = True\<rparr>"
  by (simp add: main_def mainGoroutine_def main_refresh_fails_def refreshRoster_unreadable
      run open_signals_def)

text \<open>
  Claim C9, amended. For every key, GetProof returns a nil proof and a nil error; it looks
  nothing up and calls no store.
\<close>

theorem GetProof_returns_nil_nil:
  "GetProof key = (None, None)"
  by (simp add: GetProof_def)

text \<open>
  As stated, the claim fails: for the key "key" GetProof returns neither a proof nor an
  error.
\<close>

theorem GetProof_neither_proof_nor_error_counterexample:
  "\<not> (fst (GetProof [107, 101, 121]) \<noteq> None \<or> snd (GetProof [107, 101, 121]) \<noteq> None)"
  by (simp add: GetProof_def)

lemma waitLoop_returns:
  "me s = leader \<or> wait_returns ws \<Longrightarrow> \<exists>t r. waitLoop s leader roster ws = Some (t, r)"
proof (induction ws)
  case Nil
  then show ?case by (simp add: ret_def)
next
  case (Cons w ws)
  show ?case
  proof (cases "me s = leader")
    case True
    then show ?thesis by (simp add: ret_def)
  next
    case False
    show ?thesis
    proof (cases w)
      case (Timeout vc)
      with Cons.prems False have "wait_returns ws" by simp
      with Cons.IH obtain t' r' where i: "waitLoop s leader roster ws = Some (t', r')"
        by blast
      obtain tv rv where v: "viewChange s roster vc = (tv, rv)"
        by (cases "viewChange s roster vc")
      from False Timeout i v show ?thesis
        by (cases rv) simp_all
    next
      case BlockEvent
      with False show ?thesis by simp
    next
      case Closing
      with False show ?thesis by simp
    qed
  qed
qed

lemma doRound_returns:
  assumes "case leader_res env of Inl e \<Rightarrow> True
           | Inr leader \<Rightarrow> me s = leader \<or> wait_returns (waits env)"
  shows "\<exists>t r. doRound s env = Some (t, r)"
proof (cases "round_roster env")
  case (Inl e)
  then show ?thesis
    by (simp add: doRound_def run)
next
  case (Inr roster)
  note f0 = Inr
  show ?thesis
  proof (cases "leader_res env")
    case (Inl e)
    with f0 show ?thesis
      by (simp add: doRound_def run)
  next
    case (Inr leader)
    with assms have "me s = leader \<or> wait_returns (waits env)"
      by simp
    from waitLoop_returns [OF this, of roster]
    obtain t r where w: "waitLoop s leader roster (waits env) = Some (t, r)"
      by blast
    obtain tl rl where l: "leaderRound env roster = (tl, rl)"
      by (cases "leaderRound env roster")
    show ?thesis
    proof (cases r)
      case (Inl e)
      with f0 Inr w show ?thesis
        by (simp add: doRound_def run)
    next
      case r: (Inr f)
      with f0 Inr w l show ?thesis
        by (cases f) (simp_all add: doRound_def run)
    qed
  qed
qed

lemma mainLoop_returns:
  "sees_closing s ts \<Longrightarrow> \<exists>t r. mainLoop s ts = Some (t, r)"
proof (induction ts)
  case Nil
  then show ?case by simp
next
  case (Cons tk ts)
  show ?case
  proof (cases tk)
    case SeenClosing
    then show ?thesis by (simp add: ret_def)
  next
    case (Round env)
    with Cons.prems have h: "case leader_res env of Inl e \<Rightarrow> True
           | Inr leader \<Rightarrow> me s = leader \<or> wait_returns (waits env)"
      and "sees_closing s ts"
      by simp_all
    with Cons.IH obtain t' r' where i: "mainLoop s ts = Some (t', r')"
      by blast
    from doRound_returns [OF h] obtain t r where d: "doRound s env = Some (t, r)"
      by blast
    from Round i d show ?thesis
      by (cases r) simp_all
  qed
qed

lemma main_returns:
  assumes "first_select env = ClosingFirst \<or> sees_closing s (ticks env)"
  shows "\<exists>t r. main s env = Some (t, r)"
proof (cases "first_select env")
  case ClosingFirst
  then show ?thesis
    by (simp add: main_def ret_def)
next
  case Started
  with assms have "sees_closing s (ticks env)"
    by simp
  from mainLoop_returns [OF this] obtain t r where m: "mainLoop s (ticks env) = Some (t, r)"
    by blast
  obtain t0 r0 where f: "refreshRoster (first_refresh env) = (t0, r0)"
    by (cases "refreshRoster (first_refresh env)")
  from Started m f show ?thesis
    by (cases r0) (simp_all add: main_def run)
qed

lemma mainGoroutine_closes:
  "main s env = Some r \<Longrightarrow>
   \<exists>t. mainGoroutine s env ch = Some (t, ch\<lparr>closed := True\<rparr>)"
  by (cases r) (auto simp: mainGoroutine_def split: sum.split)

lemma Close_after_main:
  assumes "\<not> closing ch" and "main s env = Some r"
  shows "Close ch (\<lambda>c. map_option snd (mainGoroutine s env c)) =
    (Returns None, \<lparr>closing = True, closed = True\<rparr>)"
proof -
  from mainGoroutine_closes [OF assms(2), of "ch\<lparr>closing := True\<rparr>"]
  obtain t where "mainGoroutine s env (ch\<lparr>closing := True\<rparr>) =
      Some (t, ch\<lparr>closing := True, closed := True\<rparr>)"
    by auto
  with assms(1) show ?thesis
    by (simp add: Close_def)
qed

lemma doRound_round_idle:
  "doRound (newService 10) round_idle = Some
     ([GetCurrentRoster, GetLeader, After 10000000000,
       Log Warn NoField ''round reached the timeout'', Expire 10,
       Call (ViewMessage 8 2) [10, 20, 30],
       Log Warn (ErrField (New ''peer unreachable'')) ''view propagation failure'',
       WatchState, GetState, Log Debug NoField ''view change successful'',
       After 10000000000],
      Inr ())"
proof -
  have n: "me (newService 10) \<noteq> 20" and f: "me (newService 10) = 10"
    and e: "timeout (newService 10) = 10000000000"
    by (simp_all add: newService_def RoundTimeout_def Second_def)
  have r: "round_roster round_idle = Inr [10, 20, 30]"
    and l: "leader_res round_idle = Inr 20"
    and w: "waits round_idle = [Timeout vc_good, Closing]"
    by (simp_all add: round_idle_def round_good_def)
  have "waitLoop (newService 10) 20 [10, 20, 30] [Closing] =
      Some ([After 10000000000], Inr Returned)"
    using n e by simp
  with doRound_follower [OF r l n] waitLoop_Timeout [OF n, of "[10, 20, 30]" vc_good "[Closing]"]
  show ?thesis
    by (simp add: w vc_good_def f e)
qed

text \<open>
  Claim C10. Close panics when the closing channel is already closed, so a second call on
  the same service panics. A first call returns nil. Once closing is closed, the first
  select of main, the select that opens each iteration of its loop and the select of the
  waiting loop of a round take the closing case (the last one possibly the event case),
  so main returns; and the goroutine that runs main closes the closed channel whenever
  main returns, with nil or with an error, also when main had returned before Close was
  called.
\<close>

theorem Close_twice_panics_first_returns:
  "(closing ch \<longrightarrow> Close ch others = (Panics ''close of closed channel'', ch)) \<and>
   (\<not> closing ch \<longrightarrow> first_select env = ClosingFirst \<or> sees_closing s (ticks env) \<longrightarrow>
      Close ch (\<lambda>c. map_option snd (mainGoroutine s env c)) =
        (Returns None, \<lparr>closing = True, closed = True\<rparr>) \<and>
      fst (Close (snd (Close ch (\<lambda>c. map_option snd (mainGoroutine s env c)))) others) =
        Panics ''close of closed channel'') \<and>
   (\<not> closing ch \<longrightarrow> (\<forall>t e. main s env = Some (t, Inl e) \<longrightarrow>
      Close ch (\<lambda>c. map_option snd (mainGoroutine s env c)) =
        (Returns None, \<lparr>closing = True, closed = True\<rparr>))) \<and>
   (\<not> closing ch \<longrightarrow> closed ch \<longrightarrow> fst (Close ch Some) = Returns None) \<and>
   (first_select env = ClosingFirst \<or> sees_closing s (ticks env) \<longrightarrow>
      (\<exists>t r. main s env = Some (t, r) \<and>
         (\<exists>t'. mainGoroutine s env ch = Some (t', ch\<lparr>closed := True\<rparr>))))"
proof (intro conjI impI allI)
  assume "closing ch"
  then show "Close ch others = (Panics ''close of closed channel'', ch)"
    by (simp add: Close_def)
next
  assume c: "\<not> closing ch"
    and h: "first_select env = ClosingFirst \<or> sees_closing s (ticks env)"
  from main_returns [OF h] obtain t r where m: "main s env = Some (t, r)"
    by blast
  from Close_after_main [OF c m]
  show f: "Close ch (\<lambda>c. map_option snd (mainGoroutine s env c)) =
        (Returns None, \<lparr>closing = True, closed = True\<rparr>)" .
  show "fst (Close (snd (Close ch (\<lambda>c. map_option snd (mainGoroutine s env c)))) others) =
        Panics ''close of closed channel''"
    by (simp add: f) (simp add: Close_def)
next
  fix t e assume c: "\<not> closing ch" and m: "main s env = Some (t, Inl e)"
  from Close_after_main [OF c m]
  show "Close ch (\<lambda>c. map_option snd (mainGoroutine s env c)) =
        (Returns None, \<lparr>closing = True, closed = True\<rparr>)" .
next
  assume "\<not> closing ch" and "closed ch"
  then show "fst (Close ch Some) = Returns None"
    by (simp add: Close_def)
next
  assume h: "first_select env = ClosingFirst \<or> sees_closing s (ticks env)"
  from main_returns [OF h] obtain t r where m: "main s env = Some (t, r)"
    by blast
  from mainGoroutine_closes [OF m, of ch] m
  show "\<exists>t r. main s env = Some (t, r) \<and>
         (\<exists>t'. mainGoroutine s env ch = Some (t', ch\<lparr>closed := True\<rparr>))"
    by blast
qed

theorem Close_twice_panics_first_returns_witness:
  "\<not> closing open_signals \<and>
   sees_closing (newService 10) (ticks main_idle) \<and>
   main (newService 10) main_idle = Some
     ([GetCurrentRoster, SetPlayers [10, 20, 30], Log Debug NoField ''node has started'',
       GetCurrentRoster, GetLeader, After 10000000000,
       Log Warn NoField ''round reached the timeout'', Expire 10,
       Call (ViewMessage 8 2) [10, 20, 30],
       Log Warn (ErrField (New ''peer unreachable'')) ''view propagation failure'',
       WatchState, GetState, Log Debug NoField ''view change successful'',
       After 10000000000],
      Inr ()) \<and>
   Close open_signals (\<lambda>c. map_option snd (mainGoroutine (newService 10) main_idle c)) =
     (Returns None, \<lparr>closing = True, closed = True\<rparr>) \<and>
   closing \<lparr>closing = True, closed = True\<rparr> \<and>
   Close \<lparr>closing = True, closed = True\<rparr> Some =
     (Panics ''close of closed channel'', \<lparr>closing = True, closed = True\<rparr>) \<and>
   main (newService 10) main_refresh_fails = Some
     ([GetCurrentRoster],
      Inl (Errorf ''refreshing roster: %v''
             (Errorf ''reading roster: %v'' (New ''genesis not found'')))) \<and>
   Close open_signals
     (\<lambda>c. map_option snd (mainGoroutine (newService 10) main_refresh_fails c)) =
     (Returns None, \<lparr>closing = True, closed = True\<rparr>)"
proof -
  have a: "\<not> closing open_signals"
    by (simp add: open_signals_def)
  have b: "sees_closing (newService 10) (ticks main_idle)"
    by (simp add: main_idle_def round_idle_def round_good_def)
  have m: "main (newService 10) main_idle = Some
     ([GetCurrentRoster, SetPlayers [10, 20, 30], Log Debug NoField ''node has started'',
       GetCurrentRoster, GetLeader, After 10000000000,
       Log Warn NoField ''round reached the timeout'', Expire 10,
       Call (ViewMessage 8 2) [10, 20, 30],
       Log Warn (ErrField (New ''peer unreachable'')) ''view propagation failure'',
       WatchState, GetState, Log Debug NoField ''view change successful'',
       After 10000000000],
      Inr ())"
    by (simp add: main_def main_idle_def refreshRoster_good doRound_round_idle run)
  have d: "main (newService 10) main_refresh_fails = Some
     ([GetCurrentRoster],
      Inl (Errorf ''refreshing roster: %v''
             (Errorf ''reading roster: %v'' (New ''genesis not found''))))"
    by (simp add: main_def main_refresh_fails_def refreshRoster_unreadable run)
  note T = Close_twice_panics_first_returns [of open_signals Some main_idle "newService 10"]
  from T a b have c1: "Close open_signals
      (\<lambda>c. map_option snd (mainGoroutine (newService 10) main_idle c)) =
     (Returns None, \<lparr>closing = True, closed = True\<rparr>)"
    by blast
  have c2: "closing \<lparr>closing = True, closed = True\<rparr>"
    by simp
  from Close_twice_panics_first_returns
    [of "\<lparr>closing = True, closed = True\<rparr>" Some main_idle "newService 10",
     THEN conjunct1] c2
  have c3: "Close \<lparr>closing = True, closed = True\<rparr> Some =
     (Panics ''close of closed channel'', \<lparr>closing = True, closed = True\<rparr>)"
    by blast
  from Close_twice_panics_first_returns
    [of open_signals Some main_refresh_fails "newService 10",
     THEN conjunct2, THEN conjunct2, THEN conjunct1] a d
  have c4: "Close open_signals
     (\<lambda>c. map_option snd (mainGoroutine (newService 10) main_refresh_fails c)) =
     (Returns None, \<lparr>closing = True, closed = True\<rparr>)"
    by blast
  from a b m c1 c2 c3 d c4 show ?thesis
    by blast
qed

lemma Notify_Some:
  "Notify chs ev = Some chs' \<Longrightarrow> chs' = map (\<lambda>c. c\<lparr>buf := buf c @ [ev]\<rparr>) chs"
  by (induction chs arbitrary: chs')
    (auto simp: NotifyCallback_def send_def split: if_splits option.splits)

lemma Notify_None:
  "Notify chs ev = None \<longleftrightarrow> (\<exists>c\<in>set chs. cap c \<le> length (buf c))"
  by (induction chs) (auto simp: NotifyCallback_def send_def split: option.splits)

text \<open>
  Claim C5. For every link handled by watchBlocks, the event is offered to the events
  channel without waiting: it is appended when there is room and dropped otherwise, so
  with the capacity 1 of NewService it is dropped exactly when the previous one has not
  been taken. Notify hands the event to every observer: when it comes back every
  observer's channel has received the event, and it can only fail to come back by
  waiting on an observer whose channel is full.
\<close>

theorem event_offered_once_and_fanned_out:
  assumes "handleLink st l = (t, ev', ws')"
  shows "ev' = (if length (buf (events st)) < cap (events st)
                then (events st)\<lparr>buf := buf (events st) @ [\<lparr>Index = link_index l\<rparr>]\<rparr>
                else events st) \<and>
    (cap (events st) = 1 \<longrightarrow>
       cap ev' = 1 \<and>
       buf ev' = (if buf (events st) = [] then [\<lparr>Index = link_index l\<rparr>] else buf (events st))) \<and>
    (\<forall>ws. ws' = Some ws \<longrightarrow>
       ws = map (\<lambda>c. c\<lparr>buf := buf c @ [\<lparr>Index = link_index l\<rparr>]\<rparr>) (watcher st)) \<and>
    (ws' = None \<longleftrightarrow> (\<exists>c\<in>set (watcher st). cap c \<le> length (buf c)))"
proof -
  from assms have e: "ev' = try_send (events st) \<lparr>Index = link_index l\<rparr>"
    and w: "ws' = Notify (watcher st) \<lparr>Index = link_index l\<rparr>"
    by (auto simp: handleLink_def Let_def split: prod.splits)
  from e have 1: "ev' = (if length (buf (events st)) < cap (events st)
                then (events st)\<lparr>buf := buf (events st) @ [\<lparr>Index = link_index l\<rparr>]\<rparr>
                else events st)"
    by (simp add: try_send_def)
  from 1 have 2: "cap (events st) = 1 \<longrightarrow>
       cap ev' = 1 \<and>
       buf ev' = (if buf (events st) = [] then [\<lparr>Index = link_index l\<rparr>] else buf (events st))"
    by (cases "buf (events st)") auto
  from w have 3: "\<forall>ws. ws' = Some ws \<longrightarrow>
       ws = map (\<lambda>c. c\<lparr>buf := buf c @ [\<lparr>Index = link_index l\<rparr>]\<rparr>) (watcher st)"
    by (auto dest: Notify_Some)
  from w have 4: "ws' = None \<longleftrightarrow> (\<exists>c\<in>set (watcher st). cap c \<le> length (buf c))"
    by (simp add: Notify_None)
  from 1 2 3 4 show ?thesis by blast
qed

theorem event_offered_once_and_fanned_out_witness:
  "handleLink wstate_busy link_two =
     ([PoolRemove 7, GetCurrentRoster, SetPlayers [10, 20, 30]],
      \<lparr>buf = [\<lparr>Index = 1\<rparr>], cap = 1\<rparr>,
      Some [\<lparr>buf = [\<lparr>Index = 2\<rparr>], cap = 1\<rparr>, \<lparr>buf = [\<lparr>Index = 2\<rparr>], cap = 1\<rparr>]) \<and>
   cap (events wstate_busy) = 1 \<and>
   buf \<lparr>buf = [\<lparr>Index = 1 :: 64 word\<rparr>], cap = 1\<rparr> = buf (events wstate_busy) \<and>
   [\<lparr>buf = [\<lparr>Index = 2 :: 64 word\<rparr>], cap = 1\<rparr>, \<lparr>buf = [\<lparr>Index = 2\<rparr>], cap = 1\<rparr>] =
     map (\<lambda>c. c\<lparr>buf := buf c @ [\<lparr>Index = link_index link_two\<rparr>]\<rparr>) (watcher wstate_busy)"
proof -
  have h: "handleLink wstate_busy link_two =
     ([PoolRemove 7, GetCurrentRoster, SetPlayers [10, 20, 30]],
      \<lparr>buf = [\<lparr>Index = 1\<rparr>], cap = 1\<rparr>,
      Some [\<lparr>buf = [\<lparr>Index = 2\<rparr>], cap = 1\<rparr>, \<lparr>buf = [\<lparr>Index = 2\<rparr>], cap = 1\<rparr>])"
    by (simp add: handleLink_def Let_def link_two_def wstate_busy_def refreshRoster_good try_send_def
        NotifyCallback_def send_def make_chan_def)
  have c: "cap (events wstate_busy) = 1"
    by (simp add: wstate_busy_def)
  from event_offered_once_and_fanned_out [OF h] h c show ?thesis
    by (simp add: wstate_busy_def)
qed

end
